theory Spec2Isabelle
  imports Main "HOL-Library.Sublist"
begin

section \<open>Characters and strings as Python sees them\<close>

text \<open>
  Text is a list of characters with code points 0..255. The patterns of
  \<^verbatim>\<open>security_utils.py\<close> and \<^verbatim>\<open>claude_sync.py\<close> contain ASCII characters only, so
  case folding is needed on ASCII letters only: no character of 128..255 folds to an
  ASCII character. Python's \<^verbatim>\<open>\s\<close> and \<^verbatim>\<open>\b\<close> on \<^verbatim>\<open>str\<close> patterns use the Unicode
  tables; \<open>py_isspace\<close> and \<open>py_isword\<close> follow them on 0..255.
\<close>

definition ord :: "char \<Rightarrow> nat" where
  "ord c = of_char c"

definition in_range :: "char \<Rightarrow> char \<Rightarrow> char \<Rightarrow> bool" where
  "in_range a b c = (ord a \<le> ord c \<and> ord c \<le> ord b)"

definition is_upper :: "char \<Rightarrow> bool" where
  "is_upper c = in_range CHR ''A'' CHR ''Z'' c"

definition is_lower :: "char \<Rightarrow> bool" where
  "is_lower c = in_range CHR ''a'' CHR ''z'' c"

definition lower :: "char \<Rightarrow> char" where
  "lower c = (if is_upper c then char_of (ord c + 32) else c)"

definition upper :: "char \<Rightarrow> char" where
  "upper c = (if is_lower c then char_of (ord c - 32) else c)"

definition py_isspace :: "char \<Rightarrow> bool" where
  "py_isspace c = (ord c \<in> {9, 10, 11, 12, 13, 28, 29, 30, 31, 32, 133, 160})"

definition py_isword :: "char \<Rightarrow> bool" where
  "py_isword c =
     (in_range CHR ''0'' CHR ''9'' c \<or> is_upper c \<or> is_lower c \<or> c = CHR ''_'' \<or>
      ord c \<in> {170, 178, 179, 181, 185, 186, 188, 189, 190} \<or>
      (192 \<le> ord c \<and> ord c \<noteq> 215 \<and> ord c \<noteq> 247))"

section \<open>Regular expressions: the backtracking matcher of Python's re\<close>

text \<open>
  The fragment of the pattern language the program uses. \<open>Cls neg items\<close> is a
  character class (\<open>neg\<close> for \<^verbatim>\<open>[^...]\<close>), \<open>Rep r m n greedy\<close> is \<^verbatim>\<open>r{m,n}\<close>
  (\<open>None\<close> for no upper bound, \<open>greedy = False\<close> for the lazy \<^verbatim>\<open>+?\<close>),
  \<open>Grp n r\<close> is the capturing group number \<open>n\<close>, \<open>WordB\<close> is \<^verbatim>\<open>\b\<close>.
\<close>

datatype citem = Ch char | Rng char char | Space | NotSpace

datatype regex =
    Lit char
  | Cls bool "citem list"
  | Seq regex regex
  | Alt regex regex
  | Rep regex nat "nat option" bool
  | Grp nat regex
  | WordB

text \<open>
  A matcher state: the character before the current position (for \<^verbatim>\<open>\b\<close>), the text
  still to read, and the groups captured so far (latest first).
\<close>

type_synonym mstate = "char option \<times> string \<times> (nat \<times> string) list"

text \<open>
  Under \<^verbatim>\<open>re.IGNORECASE\<close> the matcher compares lowercased characters: a literal matches
  a character with the same lowercase form, a range matches a character when it holds
  some character with the same lowercase form (the character itself or the same letter
  in the other case).
\<close>

definition lit_match :: "bool \<Rightarrow> char \<Rightarrow> char \<Rightarrow> bool" where
  "lit_match ic c d = (if ic then lower c = lower d else c = d)"

fun item_match :: "bool \<Rightarrow> citem \<Rightarrow> char \<Rightarrow> bool" where
  "item_match ic (Ch c) d = lit_match ic c d"
| "item_match ic (Rng a b) d =
     (if ic then in_range a b d \<or> in_range a b (lower d) \<or> in_range a b (upper d)
      else in_range a b d)"
| "item_match ic Space d = py_isspace d"
| "item_match ic NotSpace d = (\<not> py_isspace d)"

definition cls_match :: "bool \<Rightarrow> bool \<Rightarrow> citem list \<Rightarrow> char \<Rightarrow> bool" where
  "cls_match ic neg items d = (list_ex (\<lambda>i. item_match ic i d) items \<noteq> neg)"

definition at_boundary :: "char option \<Rightarrow> string \<Rightarrow> bool" where
  "at_boundary p s =
     ((case p of None \<Rightarrow> False | Some c \<Rightarrow> py_isword c) \<noteq>
      (case s of [] \<Rightarrow> False | d # _ \<Rightarrow> py_isword d))"

text \<open>
  \<open>rep f m n greedy st\<close>: the states after repeating the body \<open>f\<close>, in the order
  in which the backtracking matcher tries them. Every body repeated in this program
  reads at least one character per round; a round that reads nothing is cut.
\<close>

function rep :: "(mstate \<Rightarrow> mstate list) \<Rightarrow> nat \<Rightarrow> nat option \<Rightarrow> bool \<Rightarrow> mstate \<Rightarrow> mstate list" where
  "rep f m n greedy st =
     (let stop = (if m = 0 then [st] else []);
          more = (if n = Some 0 then []
                  else concat (map (rep f (m - 1) (map_option (\<lambda>k. k - 1) n) greedy)
                                (filter (\<lambda>st'. length (fst (snd st')) < length (fst (snd st))) (f st))))
      in if greedy then more @ stop else stop @ more)"
  by pat_completeness auto
termination
  by (relation "measure (\<lambda>(f, m, n, greedy, st). length (fst (snd st)))") auto

declare rep.simps [simp del]

text \<open>
  \<open>ends ic r st\<close>: every state in which a match of \<open>r\<close> started in \<open>st\<close> can end,
  most preferred first; \<open>ic\<close> is \<^verbatim>\<open>re.IGNORECASE\<close>.
\<close>

fun ends :: "bool \<Rightarrow> regex \<Rightarrow> mstate \<Rightarrow> mstate list" where
  "ends ic (Lit c) (p, s, g) =
     (case s of [] \<Rightarrow> [] | d # ds \<Rightarrow> if lit_match ic c d then [(Some d, ds, g)] else [])"
| "ends ic (Cls neg items) (p, s, g) =
     (case s of [] \<Rightarrow> [] | d # ds \<Rightarrow> if cls_match ic neg items d then [(Some d, ds, g)] else [])"
| "ends ic (Seq a b) st = concat (map (ends ic b) (ends ic a st))"
| "ends ic (Alt a b) st = ends ic a st @ ends ic b st"
| "ends ic (Rep r m n greedy) st = rep (ends ic r) m n greedy st"
| "ends ic (Grp k r) (p, s, g) =
     map (\<lambda>(p', s', g'). (p', s', (k, take (length s - length s') s) # g')) (ends ic r (p, s, g))"
| "ends ic WordB (p, s, g) = (if at_boundary p s then [(p, s, g)] else [])"

text \<open>A match object: the text of group 0 and the captured groups.\<close>

type_synonym rmatch = "string \<times> (nat \<times> string) list"

definition match_at :: "bool \<Rightarrow> regex \<Rightarrow> char option \<Rightarrow> string \<Rightarrow> (rmatch \<times> mstate) option" where
  "match_at ic r p s =
     (case ends ic r (p, s, []) of
        [] \<Rightarrow> None
      | (p', s', g) # _ \<Rightarrow> Some ((take (length s - length s') s, g), (p', s', g)))"

text \<open>\<^verbatim>\<open>re.search\<close>: the first position, from the left, where a match starts.\<close>

fun search_from :: "bool \<Rightarrow> regex \<Rightarrow> char option \<Rightarrow> string \<Rightarrow> rmatch option" where
  "search_from ic r p [] = map_option fst (match_at ic r p [])"
| "search_from ic r p (c # cs) =
     (case match_at ic r p (c # cs) of
        Some (m, _) \<Rightarrow> Some m
      | None \<Rightarrow> search_from ic r (Some c) cs)"

definition re_search :: "bool \<Rightarrow> regex \<Rightarrow> string \<Rightarrow> rmatch option" where
  "re_search ic r s = search_from ic r None s"

text \<open>
  \<^verbatim>\<open>re.finditer\<close>: the matches from left to right, each search starting where the
  previous match ended. No pattern of this program matches the empty string; after an
  empty match the scan moves one character on.
\<close>

function finditer_from :: "bool \<Rightarrow> regex \<Rightarrow> char option \<Rightarrow> string \<Rightarrow> rmatch list" where
  "finditer_from ic r p s =
     (case match_at ic r p s of
        None \<Rightarrow> (case s of [] \<Rightarrow> [] | c # cs \<Rightarrow> finditer_from ic r (Some c) cs)
      | Some (m, (p', s', g)) \<Rightarrow>
          m # (if length s' < length s then finditer_from ic r p' s'
               else (case s of [] \<Rightarrow> [] | c # cs \<Rightarrow> finditer_from ic r (Some c) cs)))"
  by pat_completeness auto
termination
  by (relation "measure (\<lambda>(ic, r, p, s). length s)") auto

declare finditer_from.simps [simp del]

definition re_finditer :: "bool \<Rightarrow> regex \<Rightarrow> string \<Rightarrow> rmatch list" where
  "re_finditer ic r s = finditer_from ic r None s"

text \<open>The number of capturing groups of a pattern: \<^verbatim>\<open>len(match.groups())\<close>.\<close>

fun ngroups :: "regex \<Rightarrow> nat" where
  "ngroups (Seq a b) = ngroups a + ngroups b"
| "ngroups (Alt a b) = ngroups a + ngroups b"
| "ngroups (Rep r m n greedy) = ngroups r"
| "ngroups (Grp k r) = Suc (ngroups r)"
| "ngroups r = 0"

subsection \<open>Writing patterns\<close>

text \<open>The empty pattern is written as zero repetitions.\<close>

fun seqs :: "regex list \<Rightarrow> regex" where
  "seqs [] = Rep (Lit CHR ''x'') 0 (Some 0) True"
| "seqs [r] = r"
| "seqs (r # rs) = Seq r (seqs rs)"

definition str :: "string \<Rightarrow> regex" where
  "str s = seqs (map Lit s)"

definition opt :: "regex \<Rightarrow> regex" where
  "opt r = Rep r 0 (Some 1) True"

definition star :: "regex \<Rightarrow> regex" where
  "star r = Rep r 0 None True"

definition plus :: "regex \<Rightarrow> regex" where
  "plus r = Rep r 1 None True"

definition lazy_plus :: "regex \<Rightarrow> regex" where
  "lazy_plus r = Rep r 1 None False"

definition exactly :: "nat \<Rightarrow> regex \<Rightarrow> regex" where
  "exactly n r = Rep r n (Some n) True"

definition at_least :: "nat \<Rightarrow> regex \<Rightarrow> regex" where
  "at_least n r = Rep r n None True"

fun alts :: "regex list \<Rightarrow> regex" where
  "alts [] = Cls False []"
| "alts [r] = r"
| "alts (r # rs) = Alt r (alts rs)"

section \<open>security\_utils.py: the pattern tables\<close>

definition squote :: char where
  "squote = CHR 0x27"

definition ws :: regex where
  "ws = Cls False [Space]"

definition quote_opt :: regex where
  "quote_opt = opt (Cls False [Ch CHR ''\"'', Ch squote])"

definition sep_opt :: regex where
  "sep_opt = opt (Cls False [Ch CHR ''_'', Ch CHR ''-''])"

text \<open>
  The shape \<^verbatim>\<open>(label)\s*[:=]\s*["\']?(value)["\']?\<close> that nine of the patterns share.
\<close>

definition labelled :: "regex \<Rightarrow> regex \<Rightarrow> regex" where
  "labelled label val =
     seqs [Grp 1 label, star ws, Cls False [Ch CHR '':'', Ch CHR ''=''], star ws,
           quote_opt, Grp 2 val, quote_opt]"

definition alnum :: "citem list" where
  "alnum = [Rng CHR ''a'' CHR ''z'', Rng CHR ''A'' CHR ''Z'', Rng CHR ''0'' CHR ''9'']"

definition not_quote_space :: regex where
  "not_quote_space = Cls True [Ch CHR ''\"'', Ch squote, Space]"

definition hex :: regex where
  "hex = Cls False [Rng CHR ''0'' CHR ''9'', Rng CHR ''a'' CHR ''f'']"

definition digit :: regex where
  "digit = Cls False [Rng CHR ''0'' CHR ''9'']"

text \<open>\<^verbatim>\<open>(?i)scheme://[^:]+:([^@]+)@\<close>\<close>

definition db_url :: "string \<Rightarrow> regex" where
  "db_url scheme =
     seqs [str scheme, str ''://'', plus (Cls True [Ch CHR '':'']), Lit CHR '':'',
           Grp 1 (plus (Cls True [Ch CHR ''@''])), Lit CHR ''@'']"

definition key_block :: "regex \<Rightarrow> regex" where
  "key_block kind =
     seqs [str ''-----BEGIN '', kind, str ''PRIVATE KEY-----'',
           lazy_plus (Cls False [Space, NotSpace]),
           str ''-----END '', kind, str ''PRIVATE KEY-----'']"

definition pat_CREDIT_CARD :: regex where
  "pat_CREDIT_CARD =
     seqs [WordB,
       alts [seqs [Lit CHR ''4'', exactly 12 digit, opt (exactly 3 digit)],
             seqs [Lit CHR ''5'', Cls False [Rng CHR ''1'' CHR ''5''], exactly 14 digit],
             seqs [Lit CHR ''3'', Cls False [Ch CHR ''4'', Ch CHR ''7''], exactly 13 digit],
             seqs [Lit CHR ''3'',
                   Alt (Seq (Lit CHR ''0'') (Cls False [Rng CHR ''0'' CHR ''5'']))
                       (Seq (Cls False [Ch CHR ''6'', Ch CHR ''8'']) digit),
                   exactly 11 digit],
             seqs [Lit CHR ''6'',
                   Alt (str ''011'') (Seq (Lit CHR ''5'') (exactly 2 digit)),
                   exactly 12 digit]],
       WordB]"

definition jwt_part :: regex where
  "jwt_part = star (Cls False (alnum @ [Ch CHR ''_'', Ch CHR ''-'']))"

definition token20 :: regex where
  "token20 = at_least 20 (Cls False (alnum @ [Ch CHR ''-'', Ch CHR ''_'']))"

definition token20dot :: regex where
  "token20dot = at_least 20 (Cls False (alnum @ [Ch CHR ''-'', Ch CHR ''_'', Ch CHR ''.'']))"

text \<open>The patterns, in the order of the source.\<close>

definition pat_API_KEY :: regex where
  "pat_API_KEY = labelled (Alt (seqs [str ''api'', sep_opt, str ''key'']) (str ''apikey'')) token20"

definition pat_ACCESS_TOKEN :: regex where
  "pat_ACCESS_TOKEN =
     labelled (Alt (str ''token'') (seqs [str ''access'', sep_opt, str ''token''])) token20dot"

definition pat_BEARER_TOKEN :: regex where
  "pat_BEARER_TOKEN = seqs [str ''bearer'', plus ws, Grp 1 token20dot]"

definition pat_OPENAI_API_KEY :: regex where
  "pat_OPENAI_API_KEY = seqs [str ''sk-'', exactly 48 (Cls False alnum)]"

definition pat_GOOGLE_API_KEY :: regex where
  "pat_GOOGLE_API_KEY =
     seqs [str ''AIza'',
           exactly 35 (Cls False [Rng CHR ''0'' CHR ''9'', Rng CHR ''A'' CHR ''Z'',
                                  Rng CHR ''a'' CHR ''z'', Ch CHR ''-'', Ch CHR ''_''])]"

definition pat_UUID_TOKEN :: regex where
  "pat_UUID_TOKEN =
     seqs [exactly 8 hex, Lit CHR ''-'', exactly 4 hex, Lit CHR ''-'', exactly 4 hex,
           Lit CHR ''-'', exactly 4 hex, Lit CHR ''-'', exactly 12 hex]"

definition pat_AWS_ACCESS_KEY :: regex where
  "pat_AWS_ACCESS_KEY =
     seqs [str ''AKIA'', exactly 16 (Cls False [Rng CHR ''0'' CHR ''9'', Rng CHR ''A'' CHR ''Z''])]"

definition pat_AWS_SECRET :: regex where
  "pat_AWS_SECRET =
     labelled (Alt (seqs [str ''aws'', sep_opt, str ''secret'', sep_opt, str ''access'',
                          sep_opt, str ''key''])
                   (seqs [str ''aws'', sep_opt, str ''secret'']))
              (exactly 40 (Cls False (alnum @ [Ch CHR ''/'', Ch CHR ''+'', Ch CHR ''=''])))"

definition pat_PASSWORD :: regex where
  "pat_PASSWORD =
     labelled (alts [str ''password'', str ''passwd'', str ''pwd'']) (at_least 8 not_quote_space)"

definition pat_MYSQL_PASSWORD :: regex where
  "pat_MYSQL_PASSWORD = db_url ''mysql''"

definition pat_POSTGRES_PASSWORD :: regex where
  "pat_POSTGRES_PASSWORD = db_url ''postgres''"

definition pat_MONGODB_PASSWORD :: regex where
  "pat_MONGODB_PASSWORD = db_url ''mongodb''"

definition pat_DB_PASSWORD :: regex where
  "pat_DB_PASSWORD =
     labelled (Alt (seqs [str ''db'', sep_opt, str ''pass''])
                   (seqs [str ''database'', sep_opt, str ''password'']))
              (plus not_quote_space)"

definition pat_PRIVATE_KEY :: regex where
  "pat_PRIVATE_KEY = key_block (opt (Alt (str ''RSA '') (str ''EC '')))"

definition pat_SSH_PRIVATE_KEY :: regex where
  "pat_SSH_PRIVATE_KEY = key_block (str ''OPENSSH '')"

definition pat_CLIENT_SECRET :: regex where
  "pat_CLIENT_SECRET = labelled (seqs [str ''client'', sep_opt, str ''secret'']) token20"

definition pat_CLIENT_ID :: regex where
  "pat_CLIENT_ID = labelled (seqs [str ''client'', sep_opt, str ''id'']) token20"

definition pat_SECRET_KEY :: regex where
  "pat_SECRET_KEY =
     labelled (seqs [str ''secret'', sep_opt, str ''key'']) (at_least 16 not_quote_space)"

definition pat_AUTH_TOKEN :: regex where
  "pat_AUTH_TOKEN = labelled (seqs [str ''auth'', sep_opt, str ''token'']) token20"

definition pat_JWT_TOKEN :: regex where
  "pat_JWT_TOKEN =
     seqs [str ''eyJ'', jwt_part, Lit CHR ''.'', str ''eyJ'', jwt_part, Lit CHR ''.'', jwt_part]"

text \<open>
  \<^verbatim>\<open>SENSITIVE_PATTERNS\<close>: the categories in the order of the dictionary, each with its
  patterns and their type labels in the order of the list.
\<close>

definition SENSITIVE_PATTERNS :: "(string \<times> (regex \<times> string) list) list" where
  "SENSITIVE_PATTERNS =
   [(''api_key'',
      [(pat_API_KEY, ''API_KEY''), (pat_ACCESS_TOKEN, ''ACCESS_TOKEN''),
       (pat_BEARER_TOKEN, ''BEARER_TOKEN''), (pat_OPENAI_API_KEY, ''OPENAI_API_KEY''),
       (pat_GOOGLE_API_KEY, ''GOOGLE_API_KEY''), (pat_UUID_TOKEN, ''UUID_TOKEN'')]),
    (''aws'',
      [(pat_AWS_ACCESS_KEY, ''AWS_ACCESS_KEY''), (pat_AWS_SECRET, ''AWS_SECRET'')]),
    (''database'',
      [(pat_PASSWORD, ''PASSWORD''), (pat_MYSQL_PASSWORD, ''MYSQL_PASSWORD''),
       (pat_POSTGRES_PASSWORD, ''POSTGRES_PASSWORD''),
       (pat_MONGODB_PASSWORD, ''MONGODB_PASSWORD''), (pat_DB_PASSWORD, ''DB_PASSWORD'')]),
    (''private_key'',
      [(pat_PRIVATE_KEY, ''PRIVATE_KEY''), (pat_SSH_PRIVATE_KEY, ''SSH_PRIVATE_KEY'')]),
    (''oauth'',
      [(pat_CLIENT_SECRET, ''CLIENT_SECRET''), (pat_CLIENT_ID, ''CLIENT_ID'')]),
    (''env'',
      [(pat_SECRET_KEY, ''SECRET_KEY''), (pat_AUTH_TOKEN, ''AUTH_TOKEN'')]),
    (''financial'', [(pat_CREDIT_CARD, ''CREDIT_CARD'')]),
    (''jwt'', [(pat_JWT_TOKEN, ''JWT_TOKEN'')])]"

definition WHITELIST_PATTERNS :: "regex list" where
  "WHITELIST_PATTERNS =
   [str ''example.com'', str ''localhost'', str ''127.0.0.1'', str ''test'', str ''demo'',
    str ''sample'', str ''placeholder'', at_least 3 (Lit CHR ''*''),
    Seq (str ''xx'') (plus (Lit CHR ''x''))]"

section \<open>security\_utils.py: detection and redaction\<close>

datatype error = TypeError | AttributeError | ValidationError | IndexError

text \<open>A detected secret: the matched text, its type label and its category.\<close>

type_synonym secret = "string \<times> string \<times> string"

text \<open>
  \<^verbatim>\<open>is_whitelisted\<close>: some whitelist pattern is found in the text
  (\<^verbatim>\<open>re.search\<close> with \<^verbatim>\<open>re.IGNORECASE\<close>).
\<close>

definition is_whitelisted :: "string \<Rightarrow> bool" where
  "is_whitelisted text = list_ex (\<lambda>pattern. re_search True pattern text \<noteq> None) WHITELIST_PATTERNS"

text \<open>
  The candidate of a match: the last capture group when the pattern has groups, else
  the whole match. \<^verbatim>\<open>match.group(n)\<close> is Python's \<^verbatim>\<open>None\<close> for a group that took no
  part in the match.
\<close>

definition candidate :: "regex \<Rightarrow> rmatch \<Rightarrow> string option" where
  "candidate pattern m =
     (if ngroups pattern \<noteq> 0 then map_of (snd m) (ngroups pattern) else Some (fst m))"

text \<open>
  The body of the innermost loop of \<^verbatim>\<open>detect_secrets\<close>. \<^verbatim>\<open>is_whitelisted(None)\<close>
  raises a \<^verbatim>\<open>TypeError\<close> inside \<^verbatim>\<open>re.search\<close>.
\<close>

definition check_match :: "string \<Rightarrow> regex \<Rightarrow> string \<Rightarrow> rmatch \<Rightarrow> error + secret list" where
  "check_match category pattern secret_type m =
     (case candidate pattern m of
        None \<Rightarrow> Inl TypeError
      | Some t \<Rightarrow>
          if is_whitelisted t then Inr []
          else if length t < 8 then Inr []
          else Inr [(t, secret_type, category)])"

text \<open>A loop that appends to a list and stops at the first exception.\<close>

fun collect :: "('a \<Rightarrow> error + 'b list) \<Rightarrow> 'a list \<Rightarrow> error + 'b list" where
  "collect f [] = Inr []"
| "collect f (x # xs) =
     (case f x of
        Inl e \<Rightarrow> Inl e
      | Inr ys \<Rightarrow> (case collect f xs of Inl e \<Rightarrow> Inl e | Inr zs \<Rightarrow> Inr (ys @ zs)))"

definition detect_pattern :: "string \<Rightarrow> string \<Rightarrow> regex \<times> string \<Rightarrow> error + secret list" where
  "detect_pattern text category ps =
     collect (check_match category (fst ps) (snd ps)) (re_finditer True (fst ps) text)"

definition detect_category :: "string \<Rightarrow> string \<times> (regex \<times> string) list \<Rightarrow> error + secret list" where
  "detect_category text cp = collect (detect_pattern text (fst cp)) (snd cp)"

definition detect_secrets :: "string \<Rightarrow> error + secret list" where
  "detect_secrets text =
     (if text = [] then Inr [] else collect (detect_category text) SENSITIVE_PATTERNS)"

text \<open>
  \<^verbatim>\<open>secrets.sort(key=lambda x: len(x[0]), reverse=True)\<close>: a stable sort, longest
  first; secrets of equal length keep their order.
\<close>

fun insert_by_len :: "secret \<Rightarrow> secret list \<Rightarrow> secret list" where
  "insert_by_len x [] = [x]"
| "insert_by_len x (y # ys) =
     (if length (fst x) \<le> length (fst y) then y # insert_by_len x ys else x # y # ys)"

definition sort_longest_first :: "secret list \<Rightarrow> secret list" where
  "sort_longest_first xs = foldl (\<lambda>acc x. insert_by_len x acc) [] xs"

text \<open>
  \<^verbatim>\<open>str.replace\<close>: the occurrences are replaced from left to right, without overlap.
\<close>

function replace :: "string \<Rightarrow> string \<Rightarrow> string \<Rightarrow> string" where
  "replace s old new =
     (if old = [] then new @ concat (map (\<lambda>c. c # new) s)
      else if prefix old s then new @ replace (drop (length old) s) old new
      else (case s of [] \<Rightarrow> [] | c # cs \<Rightarrow> c # replace cs old new))"
  by pat_completeness auto
termination
  by (relation "measure (\<lambda>(s, old, new). length s)") (auto simp: prefix_def)

declare replace.simps [simp del]

text \<open>A statistics dictionary, in insertion order.\<close>

type_synonym stats = "(string \<times> nat) list"

definition stats_get :: "stats \<Rightarrow> string \<Rightarrow> nat" where
  "stats_get st k = (case map_of st k of None \<Rightarrow> 0 | Some n \<Rightarrow> n)"

fun stats_set :: "stats \<Rightarrow> string \<Rightarrow> nat \<Rightarrow> stats" where
  "stats_set [] k v = [(k, v)]"
| "stats_set ((k', v') # st) k v = (if k' = k then (k, v) # st else (k', v') # stats_set st k v)"

definition stats_add :: "stats \<Rightarrow> string \<Rightarrow> nat \<Rightarrow> stats" where
  "stats_add st k n = stats_set st k (stats_get st k + n)"

text \<open>\<^verbatim>\<open>re.escape\<close> of a text is the pattern that matches exactly this text.\<close>

definition re_escape :: "string \<Rightarrow> regex" where
  "re_escape s = str s"

text \<open>The loop of \<^verbatim>\<open>redact_text\<close> over the sorted secrets.\<close>

fun redact_loop :: "secret list \<Rightarrow> string \<times> stats \<Rightarrow> string \<times> stats" where
  "redact_loop [] acc = acc"
| "redact_loop ((secret_text, secret_type, category) # rest) (redacted, stats) =
     (let typed_placeholder = ''[REDACTED_'' @ secret_type @ '']'';
          count = length (re_finditer False (re_escape secret_text) redacted)
      in redact_loop rest
           (replace redacted secret_text typed_placeholder, stats_add stats secret_type count))"

definition redact_text :: "string \<Rightarrow> error + (string \<times> stats)" where
  "redact_text text =
     (if text = [] then Inr (text, [])
      else (case detect_secrets text of
              Inl e \<Rightarrow> Inl e
            | Inr secrets \<Rightarrow> Inr (redact_loop (sort_longest_first secrets) (text, []))))"

section \<open>Decoded JSON values and Python dictionaries\<close>

text \<open>
  What \<^verbatim>\<open>json.loads\<close> returns; \<open>JNull\<close> is also Python's \<^verbatim>\<open>None\<close>. A dictionary is an
  association list in insertion order, with distinct keys. Numbers are integers here.
\<close>

datatype json = JNull | JBool bool | JNum int | JStr string | JArr "json list" | JObj "(string \<times> json) list"

type_synonym dict = "(string \<times> json) list"

text \<open>\<^verbatim>\<open>d.get(k)\<close> and \<^verbatim>\<open>d.get(k, default)\<close>\<close>

definition dict_get :: "dict \<Rightarrow> string \<Rightarrow> json" where
  "dict_get d k = (case map_of d k of None \<Rightarrow> JNull | Some v \<Rightarrow> v)"

definition dict_get_default :: "dict \<Rightarrow> string \<Rightarrow> json \<Rightarrow> json" where
  "dict_get_default d k dflt = (case map_of d k of None \<Rightarrow> dflt | Some v \<Rightarrow> v)"

text \<open>\<^verbatim>\<open>k in d\<close>\<close>

definition has_key :: "dict \<Rightarrow> string \<Rightarrow> bool" where
  "has_key d k = (map_of d k \<noteq> None)"

text \<open>\<^verbatim>\<open>d[k] = v\<close>: an existing key keeps its place, a new key goes to the end.\<close>

fun dict_set :: "dict \<Rightarrow> string \<Rightarrow> json \<Rightarrow> dict" where
  "dict_set [] k v = [(k, v)]"
| "dict_set ((k', v') # d) k v = (if k' = k then (k, v) # d else (k', v') # dict_set d k v)"

text \<open>Python's truth value of a decoded value.\<close>

fun truthy :: "json \<Rightarrow> bool" where
  "truthy JNull = False"
| "truthy (JBool b) = b"
| "truthy (JNum n) = (n \<noteq> 0)"
| "truthy (JStr s) = (s \<noteq> [])"
| "truthy (JArr xs) = (xs \<noteq> [])"
| "truthy (JObj d) = (d \<noteq> [])"

text \<open>
  \<^verbatim>\<open>key in x\<close> for a string \<open>key\<close> and a decoded value \<open>x\<close>: a key of a dictionary, an
  element of a list, a substring of a string; any other value raises \<^verbatim>\<open>TypeError\<close>.
\<close>

fun py_in :: "string \<Rightarrow> json \<Rightarrow> error + bool" where
  "py_in k (JObj d) = Inr (has_key d k)"
| "py_in k (JArr xs) = Inr (JStr k \<in> set xs)"
| "py_in k (JStr s) = Inr (sublist k s)"
| "py_in k x = Inl TypeError"

text \<open>What one round of a loop over lines does: go on, return a value, or raise.\<close>

datatype 'a step = Continue | Return 'a | Raise error

section \<open>utils.py and models.py: flattening content\<close>

text \<open>
  The list-of-blocks rule, written three times in the source
  (\<^verbatim>\<open>extract_first_user_message\<close>, \<^verbatim>\<open>scan_sessions\<close>, the validator of \<^verbatim>\<open>Message\<close>): the
  \<^verbatim>\<open>text\<close> of every dictionary block of type \<^verbatim>\<open>text\<close>, joined by newlines.
  \<^verbatim>\<open>'\n'.join\<close> raises \<^verbatim>\<open>TypeError\<close> on a part that is no string.
\<close>

fun text_parts :: "json list \<Rightarrow> json list" where
  "text_parts [] = []"
| "text_parts (JObj block # rest) =
     (if dict_get block ''type'' = JStr ''text''
      then dict_get_default block ''text'' (JStr []) # text_parts rest
      else text_parts rest)"
| "text_parts (other # rest) = text_parts rest"

definition newline :: char where
  "newline = CHR 0x0A"

fun join_lines :: "json list \<Rightarrow> error + string" where
  "join_lines [] = Inr []"
| "join_lines [JStr s] = Inr s"
| "join_lines (JStr s # rest) =
     (case join_lines rest of Inl e \<Rightarrow> Inl e | Inr t \<Rightarrow> Inr (s @ newline # t))"
| "join_lines (other # rest) = Inl TypeError"

definition flatten_blocks :: "json list \<Rightarrow> error + string" where
  "flatten_blocks blocks = join_lines (text_parts blocks)"

section \<open>utils.py: reading a transcript\<close>

text \<open>
  A transcript file is given by its lines, each already through \<^verbatim>\<open>json.loads\<close>:
  \<open>None\<close> for a line on which it raises \<^verbatim>\<open>JSONDecodeError\<close> (an empty line is one).
\<close>

type_synonym transcript = "json option list"

definition caveat_marker :: string where
  "caveat_marker = ''Caveat: The messages below were generated''"

definition command_marker :: string where
  "command_marker = ''<command-name>''"

text \<open>
  The body of the loop of \<^verbatim>\<open>extract_first_user_message\<close> for one decoded line. The
  exceptions here are no \<^verbatim>\<open>JSONDecodeError\<close>: they leave the loop and reach the outer
  handler.
\<close>

definition skip_or_return :: "json \<Rightarrow> json \<Rightarrow> (json \<times> json) step" where
  "skip_or_return content timestamp =
     (case py_in caveat_marker content of
        Inl e \<Rightarrow> Raise e
      | Inr True \<Rightarrow> Continue
      | Inr False \<Rightarrow>
          (case content of
             JStr s \<Rightarrow> if prefix command_marker s then Continue else Return (JStr s, timestamp)
           | other \<Rightarrow> Raise AttributeError))"

definition first_user_line :: "json \<Rightarrow> (json \<times> json) step" where
  "first_user_line entry =
     (case py_in ''message'' entry of
        Inl e \<Rightarrow> Raise e
      | Inr False \<Rightarrow> Continue
      | Inr True \<Rightarrow>
          (case entry of
             JObj d \<Rightarrow>
               (case dict_get d ''message'' of
                  JObj message \<Rightarrow>
                    if dict_get message ''role'' = JStr ''user''
                    then (case dict_get_default message ''content'' (JStr []) of
                            JArr blocks \<Rightarrow>
                              (case flatten_blocks blocks of
                                 Inl e \<Rightarrow> Raise e
                               | Inr s \<Rightarrow> skip_or_return (JStr s) (dict_get d ''timestamp''))
                          | content \<Rightarrow> skip_or_return content (dict_get d ''timestamp''))
                    else Continue
                | other \<Rightarrow> Continue)
           | other \<Rightarrow> Raise TypeError))"

text \<open>
  \<^verbatim>\<open>extract_first_user_message\<close>: the pair (content, timestamp); \<open>(JNull, JNull)\<close> is
  \<^verbatim>\<open>(None, None)\<close>, returned at the end of the file and by the outer handler.
\<close>

fun extract_first_user_message :: "transcript \<Rightarrow> json \<times> json" where
  "extract_first_user_message [] = (JNull, JNull)"
| "extract_first_user_message (None # rest) = extract_first_user_message rest"
| "extract_first_user_message (Some entry # rest) =
     (case first_user_line entry of
        Continue \<Rightarrow> extract_first_user_message rest
      | Return r \<Rightarrow> r
      | Raise e \<Rightarrow> (JNull, JNull))"

text \<open>
  \<^verbatim>\<open>parse_jsonl_messages\<close>: \<open>parse_loop n lines messages\<close> is the loop at line number
  \<open>n\<close>. \<^verbatim>\<open>entry['_line_number'] = line_num\<close> raises \<^verbatim>\<open>TypeError\<close> when the line decodes
  to something that is no dictionary; the outer handler then returns the messages read
  so far.
\<close>

fun parse_loop :: "nat \<Rightarrow> transcript \<Rightarrow> dict list \<Rightarrow> dict list" where
  "parse_loop n [] messages = messages"
| "parse_loop n (None # rest) messages = parse_loop (Suc n) rest messages"
| "parse_loop n (Some (JObj entry) # rest) messages =
     parse_loop (Suc n) rest (messages @ [dict_set entry ''_line_number'' (JNum (int n))])"
| "parse_loop n (Some other # rest) messages = messages"

definition parse_jsonl_messages :: "transcript \<Rightarrow> dict list" where
  "parse_jsonl_messages lines = parse_loop 1 lines []"

text \<open>
  \<^verbatim>\<open>get_project_path_from_sessions\<close>: the \<^verbatim>\<open>projectPath\<close> of the first line that has one,
  over the session files of a directory in turn; \<open>JNull\<close> when there is none or when the
  handler around the whole scan catches an exception.
\<close>

definition project_path_line :: "json \<Rightarrow> json step" where
  "project_path_line entry =
     (case py_in ''projectPath'' entry of
        Inl e \<Rightarrow> Raise e
      | Inr False \<Rightarrow> Continue
      | Inr True \<Rightarrow> (case entry of JObj d \<Rightarrow> Return (dict_get d ''projectPath'') | other \<Rightarrow> Raise TypeError))"

fun project_path_lines :: "transcript \<Rightarrow> json step" where
  "project_path_lines [] = Continue"
| "project_path_lines (None # rest) = project_path_lines rest"
| "project_path_lines (Some entry # rest) =
     (case project_path_line entry of Continue \<Rightarrow> project_path_lines rest | r \<Rightarrow> r)"

fun project_path_files :: "transcript list \<Rightarrow> json" where
  "project_path_files [] = JNull"
| "project_path_files (f # fs) =
     (case project_path_lines f of
        Continue \<Rightarrow> project_path_files fs
      | Return v \<Rightarrow> v
      | Raise e \<Rightarrow> JNull)"

text \<open>\<^verbatim>\<open>decode_project_path\<close>: \<^verbatim>\<open>encoded.replace('-', '/')\<close>\<close>

definition decode_project_path :: "string \<Rightarrow> string" where
  "decode_project_path encoded = replace encoded ''-'' ''/''"

section \<open>security\_utils.py: redacting message content\<close>

text \<open>\<^verbatim>\<open>for key, val in item_stats.items(): stats[key] = stats.get(key, 0) + val\<close>\<close>

definition stats_merge :: "stats \<Rightarrow> stats \<Rightarrow> stats" where
  "stats_merge st item_stats = foldl (\<lambda>acc (k, v). stats_add acc k v) st item_stats"

text \<open>One field (\<^verbatim>\<open>text\<close> or \<^verbatim>\<open>content\<close>) of a block: redacted when it is there and a string.\<close>

definition redact_field :: "string \<Rightarrow> dict \<times> stats \<Rightarrow> error + (dict \<times> stats)" where
  "redact_field k acc =
     (case map_of (fst acc) k of
        Some (JStr s) \<Rightarrow>
          (case redact_text s of
             Inl e \<Rightarrow> Inl e
           | Inr (r, item_stats) \<Rightarrow> Inr (dict_set (fst acc) k (JStr r), stats_merge (snd acc) item_stats))
      | other \<Rightarrow> Inr acc)"

fun redact_items :: "json list \<Rightarrow> stats \<Rightarrow> error + (json list \<times> stats)" where
  "redact_items [] stats = Inr ([], stats)"
| "redact_items (JObj item # rest) stats =
     (case redact_field ''text'' (item, stats) of
        Inl e \<Rightarrow> Inl e
      | Inr acc \<Rightarrow>
          (case redact_field ''content'' acc of
             Inl e \<Rightarrow> Inl e
           | Inr (redacted_item, stats') \<Rightarrow>
               (case redact_items rest stats' of
                  Inl e \<Rightarrow> Inl e
                | Inr (rs, stats'') \<Rightarrow> Inr (JObj redacted_item # rs, stats''))))"
| "redact_items (item # rest) stats =
     (case redact_items rest stats of
        Inl e \<Rightarrow> Inl e
      | Inr (rs, stats') \<Rightarrow> Inr (item # rs, stats'))"

fun redact_message_content :: "json \<Rightarrow> error + (json \<times> stats)" where
  "redact_message_content (JStr s) =
     (case redact_text s of Inl e \<Rightarrow> Inl e | Inr (r, stats) \<Rightarrow> Inr (JStr r, stats))"
| "redact_message_content (JArr items) =
     (case redact_items items [] of Inl e \<Rightarrow> Inl e | Inr (rs, stats) \<Rightarrow> Inr (JArr rs, stats))"
| "redact_message_content content = Inr (content, [])"

section \<open>models.py and claude\_sync.py: messages and sessions\<close>

text \<open>
  A validated \<^verbatim>\<open>Message\<close>. The fields \<^verbatim>\<open>type\<close>, \<^verbatim>\<open>role\<close>, \<^verbatim>\<open>content\<close> and \<^verbatim>\<open>timestamp\<close> are
  optional strings: the model class refuses any other value with a validation error.
\<close>

record message =
  m_type :: "string option"
  m_role :: "string option"
  m_content :: "string option"
  m_timestamp :: "string option"
  raw_data :: dict

fun opt_str :: "json \<Rightarrow> error + string option" where
  "opt_str JNull = Inr None"
| "opt_str (JStr s) = Inr (Some s)"
| "opt_str other = Inl ValidationError"

text \<open>
  The validation of \<^verbatim>\<open>content\<close>: the validator flattens a list first; what
  \<^verbatim>\<open>scan_sessions\<close> passes is never a list.
\<close>

definition validate_content :: "json \<Rightarrow> error + string option" where
  "validate_content v =
     (case v of
        JArr blocks \<Rightarrow> (case flatten_blocks blocks of Inl e \<Rightarrow> Inl e | Inr s \<Rightarrow> Inr (Some s))
      | other \<Rightarrow> opt_str other)"

definition Message :: "json \<Rightarrow> json \<Rightarrow> json \<Rightarrow> json \<Rightarrow> dict \<Rightarrow> error + message" where
  "Message ty role content timestamp raw =
     (case opt_str role of Inl e \<Rightarrow> Inl e | Inr r \<Rightarrow>
      (case validate_content content of Inl e \<Rightarrow> Inl e | Inr c \<Rightarrow>
       (case opt_str timestamp of Inl e \<Rightarrow> Inl e | Inr ts \<Rightarrow>
        (case opt_str ty of Inl e \<Rightarrow> Inl e | Inr t \<Rightarrow>
           Inr \<lparr>m_type = t, m_role = r, m_content = c, m_timestamp = ts, raw_data = raw\<rparr>))))"

text \<open>
  \<^verbatim>\<open>raw_msg.get("message", {}).get(k) if "message" in raw_msg else None\<close>: the second
  \<^verbatim>\<open>get\<close> raises \<^verbatim>\<open>AttributeError\<close> when \<^verbatim>\<open>message\<close> is no dictionary.
\<close>

definition message_field :: "dict \<Rightarrow> string \<Rightarrow> error + json" where
  "message_field raw_msg k =
     (if has_key raw_msg ''message''
      then (case dict_get raw_msg ''message'' of
              JObj m \<Rightarrow> Inr (dict_get m k)
            | other \<Rightarrow> Inl AttributeError)
      else Inr JNull)"

text \<open>
  \<^verbatim>\<open>raw_msg = raw_msg.copy(); raw_msg["message"] = raw_msg["message"].copy();
  raw_msg["message"]["content"] = redacted_content\<close>, done when \<^verbatim>\<open>message\<close> is a key.
\<close>

definition set_message_content :: "dict \<Rightarrow> json \<Rightarrow> dict" where
  "set_message_content raw_msg redacted_content =
     (case map_of raw_msg ''message'' of
        Some (JObj m) \<Rightarrow> dict_set raw_msg ''message'' (JObj (dict_set m ''content'' redacted_content))
      | other \<Rightarrow> raw_msg)"

text \<open>
  The content of a record as \<^verbatim>\<open>scan_sessions\<close> extracts it: the \<^verbatim>\<open>content\<close> of its
  \<^verbatim>\<open>message\<close>, a list of blocks flattened to text.
\<close>

definition extract_content :: "dict \<Rightarrow> error + json" where
  "extract_content raw_msg =
     (case message_field raw_msg ''content'' of
        Inl e \<Rightarrow> Inl e
      | Inr (JArr blocks) \<Rightarrow> (case flatten_blocks blocks of Inl e \<Rightarrow> Inl e | Inr s \<Rightarrow> Inr (JStr s))
      | Inr other \<Rightarrow> Inr other)"

text \<open>
  The body of the loop over \<^verbatim>\<open>raw_messages\<close> in \<^verbatim>\<open>scan_sessions\<close>: the message built
  from one record, and the statistics of its redaction.
\<close>

definition build_message :: "bool \<Rightarrow> dict \<Rightarrow> error + (message \<times> stats)" where
  "build_message enable_redaction raw_msg =
     (case extract_content raw_msg of Inl e \<Rightarrow> Inl e | Inr content \<Rightarrow>
      (case (if enable_redaction \<and> truthy content
             then (case redact_message_content content of
                     Inl e \<Rightarrow> Inl e
                   | Inr (redacted_content, stats) \<Rightarrow>
                       Inr (set_message_content raw_msg redacted_content, redacted_content, stats))
             else Inr (raw_msg, content, [])) of Inl e \<Rightarrow> Inl e | Inr (raw_msg', content', stats) \<Rightarrow>
       (case message_field raw_msg' ''role'' of Inl e \<Rightarrow> Inl e | Inr role \<Rightarrow>
        (case Message (dict_get raw_msg' ''type'') role content' (dict_get raw_msg' ''timestamp'') raw_msg' of
           Inl e \<Rightarrow> Inl e
         | Inr m \<Rightarrow> Inr (m, stats)))))"

text \<open>
  The loop itself; \<open>redaction_stats\<close> is the accumulator of the manager, which keeps
  what it has counted when a later record raises.
\<close>

fun build_messages :: "bool \<Rightarrow> dict list \<Rightarrow> stats \<Rightarrow> (error + message list) \<times> stats" where
  "build_messages enable_redaction [] redaction_stats = (Inr [], redaction_stats)"
| "build_messages enable_redaction (raw_msg # rest) redaction_stats =
     (case build_message enable_redaction raw_msg of
        Inl e \<Rightarrow> (Inl e, redaction_stats)
      | Inr (m, stats) \<Rightarrow>
          (case build_messages enable_redaction rest (stats_merge redaction_stats stats) of
             (Inl e, st) \<Rightarrow> (Inl e, st)
           | (Inr ms, st) \<Rightarrow> (Inr (m # ms), st)))"

text \<open>
  A session file of a project directory: its stem, its lines, and the checklist file
  beside it (\<open>JNull\<close> when there is none or it cannot be read).
\<close>

record session_file =
  stem :: string
  lines :: transcript
  todo :: json

record session =
  s_id :: string
  s_project_id :: string
  s_project_path :: string
  messages :: "message list"
  first_message :: "string option"
  message_timestamp :: "string option"
  todo_data :: json

text \<open>
  The validation of \<^verbatim>\<open>todo_data\<close>: an empty list becomes \<^verbatim>\<open>None\<close>; a dictionary, a list
  or \<^verbatim>\<open>None\<close> passes, anything else is a validation error.
\<close>

fun validate_todo :: "json \<Rightarrow> error + json" where
  "validate_todo (JArr xs) = Inr (if xs = [] then JNull else JArr xs)"
| "validate_todo (JObj d) = Inr (JObj d)"
| "validate_todo JNull = Inr JNull"
| "validate_todo other = Inl ValidationError"

text \<open>
  The body of the loop of \<^verbatim>\<open>scan_sessions\<close> for one session file; an exception makes
  the loop log it and go on with the next file.
\<close>

definition scan_session :: "bool \<Rightarrow> string \<Rightarrow> string \<Rightarrow> session_file \<Rightarrow> stats \<Rightarrow> (error + session) \<times> stats" where
  "scan_session enable_redaction project_id project_path f redaction_stats =
     (let (first, ts) = extract_first_user_message (lines f);
          raw_messages = parse_jsonl_messages (lines f)
      in case build_messages enable_redaction raw_messages redaction_stats of
           (Inl e, st) \<Rightarrow> (Inl e, st)
         | (Inr ms, st) \<Rightarrow>
             (case opt_str first of Inl e \<Rightarrow> (Inl e, st) | Inr fm \<Rightarrow>
              (case opt_str ts of Inl e \<Rightarrow> (Inl e, st) | Inr mts \<Rightarrow>
               (case validate_todo (todo f) of Inl e \<Rightarrow> (Inl e, st) | Inr td \<Rightarrow>
                  (Inr \<lparr>s_id = stem f, s_project_id = project_id, s_project_path = project_path,
                        messages = ms, first_message = fm, message_timestamp = mts,
                        todo_data = td\<rparr>, st)))))"

fun scan_sessions :: "bool \<Rightarrow> string \<Rightarrow> string \<Rightarrow> session_file list \<Rightarrow> stats \<Rightarrow> session list \<times> stats" where
  "scan_sessions enable_redaction project_id project_path [] redaction_stats = ([], redaction_stats)"
| "scan_sessions enable_redaction project_id project_path (f # fs) redaction_stats =
     (case scan_session enable_redaction project_id project_path f redaction_stats of
        (Inl e, st) \<Rightarrow> scan_sessions enable_redaction project_id project_path fs st
      | (Inr s, st) \<Rightarrow>
          (case scan_sessions enable_redaction project_id project_path fs st of
             (ss, st') \<Rightarrow> (s # ss, st')))"

section \<open>claude\_sync.py: what is written to the stores\<close>

text \<open>The decimal digits of a number, as in a formatted string.\<close>

fun str_nat :: "nat \<Rightarrow> string" where
  "str_nat n = (if n < 10 then [char_of (48 + n)] else str_nat (n div 10) @ [char_of (48 + n mod 10)])"

declare str_nat.simps [simp del]

text \<open>
  The document of one message, as \<^verbatim>\<open>sync_session_to_mongodb\<close> writes it to the primary
  store under \<^verbatim>\<open>_id\<close> and hands it to the search index: the dumped message with the session
  id, the project id and the index.
\<close>

record message_doc =
  doc_id :: string
  doc_session_id :: string
  doc_project_id :: string
  message_index :: nat
  doc_message :: message

definition message_id :: "string \<Rightarrow> nat \<Rightarrow> string" where
  "message_id session_id idx = session_id @ ''_'' @ str_nat idx"

definition message_docs :: "session \<Rightarrow> message_doc list" where
  "message_docs s =
     map (\<lambda>(idx, m). \<lparr>doc_id = message_id (s_id s) idx, doc_session_id = s_id s,
                       doc_project_id = s_project_id s, message_index = idx, doc_message = m\<rparr>)
         (enumerate 0 (messages s))"

section \<open>claude\_sync.py: who owns a project\<close>

text \<open>\<^verbatim>\<open>s.rstrip(chars)\<close> strips every trailing character that occurs in \<open>chars\<close>.\<close>

definition rstrip :: "string \<Rightarrow> string \<Rightarrow> string" where
  "rstrip s chars = rev (dropWhile (\<lambda>c. c \<in> set chars) (rev s))"

text \<open>
  \<^verbatim>\<open>s.split(sep)\<close> for a separator that is not empty; \<open>split_from sep s piece\<close> has read
  \<open>piece\<close> (reversed) since the last separator.
\<close>

function split_from :: "string \<Rightarrow> string \<Rightarrow> string \<Rightarrow> string list" where
  "split_from sep s piece =
     (case s of
        [] \<Rightarrow> [rev piece]
      | c # cs \<Rightarrow>
          if sep \<noteq> [] \<and> prefix sep s then rev piece # split_from sep (drop (length sep) s) []
          else split_from sep cs (c # piece))"
  by pat_completeness auto
termination
  by (relation "measure (\<lambda>(sep, s, piece). length s)") auto

declare split_from.simps [simp del]

definition split :: "string \<Rightarrow> string \<Rightarrow> string list" where
  "split s sep = split_from sep s []"

text \<open>
  The file system as the resolver sees it: for a directory, given by the components of
  its path, whether \<^verbatim>\<open>.git/config\<close> exists there and what \<^verbatim>\<open>configparser\<close> makes of it
  (\<open>Unreadable\<close> when reading the file or one of its values raises): the sections with
  their options.
\<close>

datatype git_config = NoConfig | Unreadable | Config "(string \<times> (string \<times> string) list) list"

type_synonym filesystem = "string list \<Rightarrow> git_config"

text \<open>The components of a path, as \<^verbatim>\<open>Path\<close> keeps them.\<close>

definition path_parts :: "string \<Rightarrow> string list" where
  "path_parts p = filter (\<lambda>c. c \<noteq> [] \<and> c \<noteq> ''.'') (split p ''/'')"

text \<open>\<^verbatim>\<open>host[:/]([^/]+)/([^/\s]+)\<close>\<close>

definition host_pattern :: "string \<Rightarrow> regex" where
  "host_pattern host =
     seqs [str host, Cls False [Ch CHR '':'', Ch CHR ''/''], Grp 1 (plus (Cls True [Ch CHR ''/''])),
           Lit CHR ''/'', Grp 2 (plus (Cls True [Ch CHR ''/'', Space]))]"

definition url_patterns :: "regex list" where
  "url_patterns = [host_pattern ''github.com'', host_pattern ''gitlab.com'', host_pattern ''bitbucket.org'']"

text \<open>The loop over the patterns: the groups 1 and 2 of the first pattern found in the URL.\<close>

fun match_url :: "regex list \<Rightarrow> string \<Rightarrow> (string option \<times> string option) option" where
  "match_url [] url = None"
| "match_url (pattern # rest) url =
     (case re_search False pattern url of
        Some m \<Rightarrow> Some (map_of (snd m) 1, map_of (snd m) 2)
      | None \<Rightarrow> match_url rest url)"

text \<open>What one \<^verbatim>\<open>.git/config\<close> gives: an owner and a repository, or nothing (go one directory up).\<close>

definition repo_of_config :: "git_config \<Rightarrow> (string option \<times> string option) option" where
  "repo_of_config c =
     (case c of
        Config sections \<Rightarrow>
          (case map_of sections ''remote \"origin\"'' of
             None \<Rightarrow> None
           | Some options \<Rightarrow>
               (let url = (case map_of options ''url'' of None \<Rightarrow> [] | Some u \<Rightarrow> u);
                    url = rstrip url ''.git''
                in match_url url_patterns url))
      | other \<Rightarrow> None)"

text \<open>
  The walk upward, on the reversed components: the root itself is not looked at
  (\<^verbatim>\<open>while current_path != current_path.parent\<close>).
\<close>

fun git_walk :: "filesystem \<Rightarrow> string list \<Rightarrow> string option \<times> string option" where
  "git_walk fs [] = (None, None)"
| "git_walk fs (d # up) =
     (case repo_of_config (fs (rev (d # up))) of
        Some r \<Rightarrow> r
      | None \<Rightarrow> git_walk fs up)"

definition extract_repo_info_from_git_config :: "filesystem \<Rightarrow> string \<Rightarrow> string option \<times> string option" where
  "extract_repo_info_from_git_config fs base_path = git_walk fs (rev (path_parts base_path))"

definition nonempty :: "string option \<Rightarrow> bool" where
  "nonempty x = (case x of None \<Rightarrow> False | Some s \<Rightarrow> s \<noteq> [])"

text \<open>
  Indexing a list of pieces: \<^verbatim>\<open>xs[i]\<close> raises \<^verbatim>\<open>IndexError\<close> out of range. The guards of
  the source keep every index in range; the exception is modelled all the same.
\<close>

definition item :: "'a list \<Rightarrow> nat \<Rightarrow> error + 'a" where
  "item xs i = (if i < length xs then Inr (xs ! i) else Inl IndexError)"

definition extract_repo_info :: "filesystem \<Rightarrow> string \<Rightarrow> error + (string option \<times> string option)" where
  "extract_repo_info fs project_path =
     (let (owner, repo) = extract_repo_info_from_git_config fs project_path
      in if nonempty owner \<and> nonempty repo then Inr (owner, repo)
         else if sublist ''/workspace/'' project_path
         then (case item (split project_path ''/workspace/'') 1 of Inl e \<Rightarrow> Inl e | Inr workspace_part \<Rightarrow>
               (case item (split workspace_part ''/'') 0 of Inl e \<Rightarrow> Inl e | Inr repo_name \<Rightarrow>
                  if sublist ''/projects/'' workspace_part
                  then (case item (split workspace_part ''/projects/'') 1 of Inl e \<Rightarrow> Inl e | Inr after \<Rightarrow>
                        (case item (split after ''/'') 0 of Inl e \<Rightarrow> Inl e | Inr name \<Rightarrow>
                           Inr (None, Some name)))
                  else Inr (None, Some repo_name)))
         else (case split (rstrip project_path ''/'') ''/'' of
                 [] \<Rightarrow> Inr (None, None)
               | parts \<Rightarrow> Inr (None, Some (last parts))))"

definition extract_repo_name :: "filesystem \<Rightarrow> string \<Rightarrow> error + string option" where
  "extract_repo_name fs project_path =
     (case extract_repo_info fs project_path of Inl e \<Rightarrow> Inl e | Inr (owner, repo_name) \<Rightarrow> Inr repo_name)"

section \<open>claude\_sync.py: scanning the projects\<close>

record dir_entry =
  d_name :: string
  is_dir :: bool
  session_files :: "session_file list"

record project =
  p_id :: string
  p_path :: string
  p_sessions :: "string list"

record config =
  selected_repos :: "string set option"
  selected_owners :: "string set option"
  enable_redaction :: bool

text \<open>
  The project path of a directory: from its sessions, else decoded from its name. A
  path that is no string makes \<^verbatim>\<open>Path(...)\<close> raise \<^verbatim>\<open>TypeError\<close> in the resolver.
\<close>

definition resolve_path :: "dir_entry \<Rightarrow> error + string" where
  "resolve_path d =
     (let project_path = project_path_files (map lines (session_files d))
      in if \<not> truthy project_path then Inr (decode_project_path (d_name d))
         else (case project_path of JStr s \<Rightarrow> Inr s | other \<Rightarrow> Inl TypeError))"

text \<open>\<^verbatim>\<open>if self.selected_repos:\<close> holds for a set that is there and not empty.\<close>

definition active :: "string set option \<Rightarrow> bool" where
  "active sel = (case sel of None \<Rightarrow> False | Some S \<Rightarrow> S \<noteq> {})"

definition selected :: "string set option \<Rightarrow> string option \<Rightarrow> bool" where
  "selected sel name = (nonempty name \<and> (case (sel, name) of (Some S, Some n) \<Rightarrow> n \<in> S | other \<Rightarrow> False))"

text \<open>
  The body of the loop of \<^verbatim>\<open>scan_projects\<close>: the project of a directory entry, or
  nothing when the entry is skipped (no directory, filtered out, or an exception).
\<close>

definition scan_project :: "config \<Rightarrow> filesystem \<Rightarrow> dir_entry \<Rightarrow> project option" where
  "scan_project cfg fs d =
     (if \<not> is_dir d then None
      else (case resolve_path d of
              Inl e \<Rightarrow> None
            | Inr project_path \<Rightarrow>
                (case extract_repo_info fs project_path of
                   Inl e \<Rightarrow> None
                 | Inr (owner, repo_name) \<Rightarrow>
                     if active (selected_repos cfg) \<and> \<not> selected (selected_repos cfg) repo_name then None
                     else if active (selected_owners cfg) \<and> \<not> selected (selected_owners cfg) owner then None
                     else Some \<lparr>p_id = d_name d, p_path = project_path,
                                p_sessions = map stem (session_files d)\<rparr>)))"

text \<open>\<open>None\<close> for the directory list: the projects directory does not exist.\<close>

definition scan_projects :: "config \<Rightarrow> filesystem \<Rightarrow> dir_entry list option \<Rightarrow> project list" where
  "scan_projects cfg fs dirs =
     (case dirs of None \<Rightarrow> [] | Some ds \<Rightarrow> List.map_filter (scan_project cfg fs) ds)"

section \<open>claude\_sync.py: the run\<close>

text \<open>
  The world of a run: the directories, the file system, and what the stores answer
  (whether the primary store connects, and whether the write of a project or of a
  session succeeds).
\<close>

record world =
  claude_dir_exists :: bool
  projects_dir :: "dir_entry list option"
  fs :: filesystem
  connect_mongodb :: bool
  project_synced :: "string \<Rightarrow> bool"
  session_synced :: "string \<Rightarrow> bool"

record sync_stats =
  projects_found :: nat
  projects_synced :: nat
  sessions_found :: nat
  sessions_synced :: nat
  total_messages :: nat
  errors :: "string list"
  redaction_stats :: stats

definition empty_stats :: sync_stats where
  "empty_stats = \<lparr>projects_found = 0, projects_synced = 0, sessions_found = 0, sessions_synced = 0,
                  total_messages = 0, errors = [], redaction_stats = []\<rparr>"

text \<open>The loop over the sessions of one project in \<^verbatim>\<open>sync_all\<close>.\<close>

fun sync_sessions :: "world \<Rightarrow> session list \<Rightarrow> sync_stats \<Rightarrow> sync_stats" where
  "sync_sessions w [] st = st"
| "sync_sessions w (s # ss) st =
     sync_sessions w ss
       (if session_synced w (s_id s)
        then st\<lparr>sessions_synced := sessions_synced st + 1,
                total_messages := total_messages st + length (messages s)\<rparr>
        else st\<lparr>errors := errors st @ [''Failed to sync session '' @ s_id s]\<rparr>)"

text \<open>
  The loop over the projects; the statistics of the manager (\<open>rs\<close>) are threaded beside
  the summary.
\<close>

fun sync_projects :: "config \<Rightarrow> world \<Rightarrow> project list \<Rightarrow> sync_stats \<times> stats \<Rightarrow> sync_stats \<times> stats" where
  "sync_projects cfg w [] acc = acc"
| "sync_projects cfg w (p # ps) (st, rs) =
     sync_projects cfg w ps
       (if project_synced w (p_id p)
        then (let files = (case projects_dir w of
                             None \<Rightarrow> []
                           | Some ds \<Rightarrow> concat (map session_files (filter (\<lambda>d. d_name d = p_id p) ds)));
                  (sessions, rs') = scan_sessions (enable_redaction cfg) (p_id p) (p_path p) files rs;
                  st1 = st\<lparr>projects_synced := projects_synced st + 1,
                          sessions_found := sessions_found st + length sessions\<rparr>
              in (sync_sessions w sessions st1, rs'))
        else (st\<lparr>errors := errors st @ [''Failed to sync project '' @ p_id p]\<rparr>, rs))"

definition sync_all :: "config \<Rightarrow> world \<Rightarrow> sync_stats" where
  "sync_all cfg w =
     (if \<not> connect_mongodb w then empty_stats\<lparr>errors := [''Failed to connect to MongoDB'']\<rparr>
      else (let projects = scan_projects cfg (fs w) (projects_dir w);
                (st, rs) = sync_projects cfg w projects (empty_stats\<lparr>projects_found := length projects\<rparr>, [])
            in st\<lparr>redaction_stats := rs\<rparr>))"

section \<open>claude\_sync.py: main and the exit status\<close>

record args =
  repos :: "string list option"
  owners :: "string list option"
  all :: bool
  list :: bool
  no_redaction :: bool

text \<open>
  What the user answers when no option selects: the menu entry, and the sets the
  selection dialogues return (\<open>None\<close> for "sync all").
\<close>

datatype menu = ByOwner | ByRepo | SyncAll

record answers =
  menu_choice :: menu
  chosen_owners :: "string set option"
  chosen_repos :: "string set option"

text \<open>
  \<^verbatim>\<open>get_available_repos\<close> and \<^verbatim>\<open>get_available_owners\<close>: the names found over the
  directories; a directory whose resolution raises is passed over.
\<close>

definition available_name :: "(string \<Rightarrow> error + string option) \<Rightarrow> dir_entry \<Rightarrow> string option" where
  "available_name resolver d =
     (if \<not> is_dir d then None
      else (case resolve_path d of
              Inl e \<Rightarrow> None
            | Inr project_path \<Rightarrow>
                (case resolver project_path of
                   Inr (Some n) \<Rightarrow> if n \<noteq> [] then Some n else None
                 | other \<Rightarrow> None)))"

definition get_available_repos :: "world \<Rightarrow> string set" where
  "get_available_repos w =
     (case projects_dir w of
        None \<Rightarrow> {}
      | Some ds \<Rightarrow> set (List.map_filter (available_name (extract_repo_name (fs w))) ds))"

definition get_available_owners :: "world \<Rightarrow> string set" where
  "get_available_owners w =
     (case projects_dir w of
        None \<Rightarrow> {}
      | Some ds \<Rightarrow>
          set (List.map_filter
                 (available_name (\<lambda>p. Inr (fst (extract_repo_info_from_git_config (fs w) p)))) ds))"

text \<open>
  \<^verbatim>\<open>main\<close>: the exit status of the process, and the summary when the run got as far as
  \<^verbatim>\<open>sync_all\<close>. \<open>Inl n\<close> is \<^verbatim>\<open>sys.exit(n)\<close> while the selection is worked out.
\<close>

definition select :: "args \<Rightarrow> answers \<Rightarrow> world \<Rightarrow> nat + (string set option \<times> string set option)" where
  "select a ans w =
     (let available_repos = get_available_repos w;
          available_owners = get_available_owners w
      in if repos a \<noteq> None \<and> repos a \<noteq> Some [] \<and> owners a \<noteq> None \<and> owners a \<noteq> Some [] then Inl 1
         else (case repos a of
                 Some (r # rs) \<Rightarrow>
                   (let sel = set (r # rs) \<inter> available_repos
                    in if sel = {} then Inl 1 else Inr (Some sel, None))
               | other \<Rightarrow>
                   (case owners a of
                      Some (r # rs) \<Rightarrow>
                        (let sel = set (r # rs) \<inter> available_owners
                         in if sel = {} then Inl 1 else Inr (None, Some sel))
                    | other \<Rightarrow>
                        if all a then Inr (None, None)
                        else if available_owners \<noteq> {}
                        then (case menu_choice ans of
                                ByOwner \<Rightarrow> Inr (None, chosen_owners ans)
                              | ByRepo \<Rightarrow> Inr (chosen_repos ans, None)
                              | SyncAll \<Rightarrow> Inr (None, None))
                        else if available_repos \<noteq> {} then Inr (chosen_repos ans, None)
                        else Inr (None, None))))"

definition main :: "args \<Rightarrow> answers \<Rightarrow> world \<Rightarrow> nat \<times> sync_stats option" where
  "main a ans w =
     (if \<not> claude_dir_exists w then (1, None)
      else if list a then (0, None)
      else (case select a ans w of
              Inl status \<Rightarrow> (status, None)
            | Inr (sel_repos, sel_owners) \<Rightarrow>
                (0, Some (sync_all \<lparr>selected_repos = sel_repos, selected_owners = sel_owners,
                                    enable_redaction = \<not> no_redaction a\<rparr> w))))"

section \<open>Auxiliary definitions for the proofs\<close>

text \<open>
  The loops of the matcher, one step at a time: the result of the match at the current
  position is computed first and then decides how the scan goes on.
\<close>

fun finditer_step :: "bool \<Rightarrow> regex \<Rightarrow> char option \<Rightarrow> string \<Rightarrow> (rmatch \<times> mstate) option \<Rightarrow> rmatch list" where
  "finditer_step ic r p [] None = []"
| "finditer_step ic r p (c # cs) None = finditer_from ic r (Some c) cs"
| "finditer_step ic r p s (Some (m, (p', s', g))) =
     m # (if length s' < length s then finditer_from ic r p' s'
          else (case s of [] \<Rightarrow> [] | c # cs \<Rightarrow> finditer_from ic r (Some c) cs))"

fun first_end :: "string \<Rightarrow> mstate list \<Rightarrow> (rmatch \<times> mstate) option" where
  "first_end s [] = None"
| "first_end s ((p', s', g) # _) = Some ((take (length s - length s') s, g), (p', s', g))"

fun search_step :: "bool \<Rightarrow> regex \<Rightarrow> string \<Rightarrow> (rmatch \<times> mstate) option \<Rightarrow> rmatch option" where
  "search_step ic r s (Some (m, st)) = Some m"
| "search_step ic r [] None = None"
| "search_step ic r (c # cs) None = search_from ic r (Some c) cs"

fun replace_step :: "string \<Rightarrow> string \<Rightarrow> string \<Rightarrow> bool \<Rightarrow> string" where
  "replace_step s old new True = new @ replace (drop (length old) s) old new"
| "replace_step [] old new False = []"
| "replace_step (c # cs) old new False = c # replace cs old new"

fun split_step :: "string \<Rightarrow> string \<Rightarrow> string \<Rightarrow> bool \<Rightarrow> string list" where
  "split_step sep [] piece b = [rev piece]"
| "split_step sep (c # cs) piece True = rev piece # split_from sep (drop (length sep) (c # cs)) []"
| "split_step sep (c # cs) piece False = split_from sep cs (c # piece)"

text \<open>
  \<open>binds k r\<close>: every match of \<open>r\<close> captures group \<open>k\<close>. A pattern is well formed when
  its last group is captured by every match, so that \<^verbatim>\<open>match.group(n)\<close> is never \<^verbatim>\<open>None\<close>
  in \<^verbatim>\<open>detect_secrets\<close>.
\<close>

fun binds :: "nat \<Rightarrow> regex \<Rightarrow> bool" where
  "binds k (Grp n r) = (n = k \<or> binds k r)"
| "binds k (Seq a b) = (binds k a \<or> binds k b)"
| "binds k (Alt a b) = (binds k a \<and> binds k b)"
| "binds k (Rep r m n greedy) = (0 < m \<and> binds k r)"
| "binds k r = False"

definition wf_pattern :: "regex \<Rightarrow> bool" where
  "wf_pattern r = (ngroups r = 0 \<or> binds (ngroups r) r)"

section \<open>The first user message and the records of a transcript, as specified\<close>

text \<open>
  The flattened content of a record that carries a \<^verbatim>\<open>message\<close> object with role
  \<^verbatim>\<open>user\<close>; \<open>None\<close> for any other record.
\<close>

definition user_content :: "json \<Rightarrow> string option" where
  "user_content entry =
     (case entry of
        JObj d \<Rightarrow>
          (case map_of d ''message'' of
             Some (JObj m) \<Rightarrow>
               if map_of m ''role'' = Some (JStr ''user'')
               then (case dict_get_default m ''content'' (JStr []) of
                       JStr s \<Rightarrow> Some s
                     | JArr blocks \<Rightarrow> (case flatten_blocks blocks of Inl e \<Rightarrow> None | Inr s \<Rightarrow> Some s)
                     | other \<Rightarrow> None)
               else None
           | other \<Rightarrow> None)
      | other \<Rightarrow> None)"

text \<open>A line of a transcript as the tool writes it: an object whose user content, if any, is text or a list of blocks with text.\<close>

definition record_line :: "json \<Rightarrow> bool" where
  "record_line entry =
     (case entry of
        JObj d \<Rightarrow>
          (case map_of d ''message'' of
             Some (JObj m) \<Rightarrow> map_of m ''role'' \<noteq> Some (JStr ''user'') \<or> user_content entry \<noteq> None
           | other \<Rightarrow> True)
      | other \<Rightarrow> False)"

text \<open>A user record is skipped when its content holds the caveat marker or begins with the command marker.\<close>

definition skipped :: "string \<Rightarrow> bool" where
  "skipped s = (sublist caveat_marker s \<or> prefix command_marker s)"

definition qualifying :: "json \<Rightarrow> (json \<times> json) option" where
  "qualifying entry =
     (case user_content entry of
        None \<Rightarrow> None
      | Some s \<Rightarrow>
          if skipped s then None
          else Some (JStr s, (case entry of JObj d \<Rightarrow> dict_get d ''timestamp'' | other \<Rightarrow> JNull)))"

text \<open>The first record in file order that qualifies.\<close>

definition first_qualifying :: "transcript \<Rightarrow> json \<times> json" where
  "first_qualifying ls =
     (case List.map_filter qualifying (List.map_filter id ls) of
        [] \<Rightarrow> (JNull, JNull)
      | r # rest \<Rightarrow> r)"

text \<open>The records of a transcript, each with its line number (counted from \<open>n\<close>), in file order.\<close>

definition records_from :: "nat \<Rightarrow> transcript \<Rightarrow> (nat \<times> dict) list" where
  "records_from n ls =
     List.map_filter (\<lambda>(k, l). case l of Some (JObj d) \<Rightarrow> Some (k, d) | other \<Rightarrow> None) (enumerate n ls)"

definition numbered :: "nat \<times> dict \<Rightarrow> dict" where
  "numbered r = dict_set (snd r) ''_line_number'' (JNum (int (fst r)))"

text \<open>
  The repository name the resolver gives for a directory entry; \<open>None\<close> when it gives
  none, an empty one, or raises. A directory is in a set of repository names when it is
  a directory and this name is in the set.
\<close>

definition repo_name_of :: "filesystem \<Rightarrow> dir_entry \<Rightarrow> string option" where
  "repo_name_of g d =
     (case resolve_path d of
        Inl e \<Rightarrow> None
      | Inr project_path \<Rightarrow>
          (case extract_repo_name g project_path of
             Inr (Some n) \<Rightarrow> if n = [] then None else Some n
           | other \<Rightarrow> None))"

definition in_repo_set :: "string set \<Rightarrow> filesystem \<Rightarrow> dir_entry \<Rightarrow> bool" where
  "in_repo_set S g d = (is_dir d \<and> (case repo_name_of g d of None \<Rightarrow> False | Some n \<Rightarrow> n \<in> S))"

section \<open>The matcher: captured groups\<close>

lemma rep_mem:
  "st' \<in> set (rep f m n greedy st) \<longleftrightarrow>
     (m = 0 \<and> st' = st) \<or>
     (n \<noteq> Some 0 \<and>
      (\<exists>x \<in> set (f st). length (fst (snd x)) < length (fst (snd st)) \<and>
         st' \<in> set (rep f (m - 1) (map_option (\<lambda>k. k - 1) n) greedy x)))"
  by (subst rep.simps) (auto simp: Let_def)

lemma rep_extends:
  "(\<And>st st'. st' \<in> set (f st) \<Longrightarrow> \<exists>g'. snd (snd st') = g' @ snd (snd st)) \<Longrightarrow>
   st' \<in> set (rep f m n greedy st) \<Longrightarrow> \<exists>g'. snd (snd st') = g' @ snd (snd st)"
proof (induction f m n greedy st rule: rep.induct)
  case (1 f1 m n greedy st)
  from "1.prems"(2) consider (stop) "st' = st"
    | (more) x where "n \<noteq> Some 0" "x \<in> set (f1 st)" "length (fst (snd x)) < length (fst (snd st))"
        "st' \<in> set (rep f1 (m - 1) (map_option (\<lambda>k. k - 1) n) greedy x)"
    by (subst (asm) rep_mem) blast
  then show ?case
  proof cases
    case stop
    then show ?thesis by simp
  next
    case more
    from more(2,3) have "x \<in> set (filter (\<lambda>st'. length (fst (snd st')) < length (fst (snd st))) (f1 st))"
      by simp
    from "1.IH" [OF refl more(1) this "1.prems"(1) more(4)]
    obtain g1 where g1: "snd (snd st') = g1 @ snd (snd x)"
      by blast
    from "1.prems"(1) [OF more(2)] obtain g2 where "snd (snd x) = g2 @ snd (snd st)"
      by blast
    with g1 have "snd (snd st') = (g1 @ g2) @ snd (snd st)"
      by simp
    then show ?thesis by blast
  qed
qed

lemma ends_extends: "st' \<in> set (ends ic r st) \<Longrightarrow> \<exists>g'. snd (snd st') = g' @ snd (snd st)"
proof (induction r arbitrary: st st')
  case (Lit c)
  then show ?case by (cases st) (auto split: list.splits if_splits)
next
  case (Cls neg items)
  then show ?case by (cases st) (auto split: list.splits if_splits)
next
  case (Seq a b)
  from Seq.prems obtain x where x: "x \<in> set (ends ic a st)" "st' \<in> set (ends ic b x)"
    by auto
  from Seq.IH(1) [OF x(1)] obtain g1 where g1: "snd (snd x) = g1 @ snd (snd st)"
    by blast
  from Seq.IH(2) [OF x(2)] obtain g2 where "snd (snd st') = g2 @ snd (snd x)"
    by blast
  with g1 have "snd (snd st') = (g2 @ g1) @ snd (snd st)"
    by simp
  then show ?case by blast
next
  case (Alt a b)
  from Alt.prems have "st' \<in> set (ends ic a st) \<or> st' \<in> set (ends ic b st)"
    by simp
  with Alt.IH show ?case by blast
next
  case (Rep r m n greedy)
  from Rep.prems have "st' \<in> set (rep (ends ic r) m n greedy st)"
    by simp
  then show ?case
    by (rule rep_extends [rotated]) (rule Rep.IH)
next
  case (Grp k r)
  obtain p s g where st: "st = (p, s, g)" by (cases st)
  with Grp.prems obtain p' s' g' where in_r: "(p', s', g') \<in> set (ends ic r (p, s, g))"
    and st': "st' = (p', s', (k, take (length s - length s') s) # g')"
    by auto
  from Grp.IH [OF in_r] obtain g1 where "g' = g1 @ g"
    by auto
  with st st' have "snd (snd st') = ((k, take (length s - length s') s) # g1) @ snd (snd st)"
    by simp
  then show ?case by blast
next
  case WordB
  then show ?case by (cases st) (auto split: if_splits)
qed

lemma rep_binds:
  assumes ext: "\<And>st st'. st' \<in> set (f st) \<Longrightarrow> \<exists>g'. snd (snd st') = g' @ snd (snd st)"
    and bnd: "\<And>st st'. st' \<in> set (f st) \<Longrightarrow> k \<in> fst ` set (snd (snd st'))"
    and m: "0 < m"
    and st': "st' \<in> set (rep f m n greedy st)"
  shows "k \<in> fst ` set (snd (snd st'))"
proof -
  from st' m obtain x where x: "x \<in> set (f st)"
    and rest: "st' \<in> set (rep f (m - 1) (map_option (\<lambda>k. k - 1) n) greedy x)"
    by (subst (asm) rep_mem) auto
  from rep_extends [OF ext rest] obtain g' where "snd (snd st') = g' @ snd (snd x)"
    by blast
  with bnd [OF x] show ?thesis
    by auto
qed

lemma ends_binds: "binds k r \<Longrightarrow> st' \<in> set (ends ic r st) \<Longrightarrow> k \<in> fst ` set (snd (snd st'))"
proof (induction r arbitrary: st st')
  case (Seq a b)
  from Seq.prems(2) obtain x where x: "x \<in> set (ends ic a st)" "st' \<in> set (ends ic b x)"
    by auto
  from Seq.prems(1) have "binds k a \<or> binds k b"
    by simp
  then show ?case
  proof
    assume "binds k a"
    from Seq.IH(1) [OF this x(1)] have "k \<in> fst ` set (snd (snd x))" .
    moreover from ends_extends [OF x(2)] obtain g' where "snd (snd st') = g' @ snd (snd x)"
      by blast
    ultimately show ?thesis by auto
  next
    assume "binds k b"
    from Seq.IH(2) [OF this x(2)] show ?thesis .
  qed
next
  case (Alt a b)
  from Alt.prems(2) have "st' \<in> set (ends ic a st) \<or> st' \<in> set (ends ic b st)"
    by simp
  moreover from Alt.prems(1) have "binds k a" and "binds k b"
    by simp_all
  ultimately show ?case
    using Alt.IH by blast
next
  case (Rep r m n greedy)
  from Rep.prems(1) have m: "0 < m" and b: "binds k r"
    by simp_all
  from Rep.prems(2) have "st' \<in> set (rep (ends ic r) m n greedy st)"
    by simp
  with m show ?case
    by (rule rep_binds [rotated 2]) (rule ends_extends, assumption, rule Rep.IH [OF b], assumption)
next
  case (Grp n r)
  obtain p s g where st: "st = (p, s, g)" by (cases st)
  with Grp.prems(2) obtain p' s' g' where in_r: "(p', s', g') \<in> set (ends ic r (p, s, g))"
    and st': "st' = (p', s', (n, take (length s - length s') s) # g')"
    by auto
  from Grp.prems(1) have "n = k \<or> binds k r"
    by simp
  then show ?case
  proof
    assume "n = k"
    with st' show ?thesis by simp
  next
    assume "binds k r"
    from Grp.IH [OF this in_r] st' show ?thesis by simp
  qed
qed simp_all

lemma match_at_caps:
  "match_at ic r p s = Some (m, st') \<Longrightarrow> st' \<in> set (ends ic r (p, s, [])) \<and> snd m = snd (snd st')"
  by (auto simp: match_at_def split: list.splits)

lemma finditer_caps:
  "m \<in> set (finditer_from ic r p s) \<Longrightarrow>
     \<exists>p0 s0 st'. st' \<in> set (ends ic r (p0, s0, [])) \<and> snd m = snd (snd st')"
proof (induction ic r p s rule: finditer_from.induct)
  case (1 ic r p s)
  show ?case
  proof (cases "match_at ic r p s")
    case None
    with "1.prems" obtain c cs where s: "s = c # cs" and "m \<in> set (finditer_from ic r (Some c) cs)"
      by (subst (asm) finditer_from.simps) (auto split: list.splits)
    with "1.IH"(1) [OF None s] show ?thesis
      by blast
  next
    case (Some a)
    obtain m0 p' s' g where a: "a = (m0, (p', s', g))"
      by (cases a) auto
    from "1.prems" Some a consider (here) "m = m0"
      | (next1) "length s' < length s" "m \<in> set (finditer_from ic r p' s')"
      | (next2) c cs where "\<not> length s' < length s" "s = c # cs" "m \<in> set (finditer_from ic r (Some c) cs)"
      by (subst (asm) finditer_from.simps) (auto split: list.splits if_splits)
    then show ?thesis
    proof cases
      case here
      with match_at_caps [of ic r p s m0 "(p', s', g)"] Some a show ?thesis
        by blast
    next
      case next1
      from "1.IH"(2) [OF Some [unfolded a] refl refl refl next1] show ?thesis .
    next
      case next2
      from "1.IH"(3) [OF Some [unfolded a] refl refl refl next2] show ?thesis .
    qed
  qed
qed

section \<open>Detection and redaction never raise\<close>

lemma candidate_total:
  assumes "wf_pattern r" "m \<in> set (re_finditer ic r text)"
  shows "\<exists>t. candidate r m = Some t"
proof (cases "ngroups r = 0")
  case True
  then show ?thesis by (simp add: candidate_def)
next
  case False
  with assms(1) have b: "binds (ngroups r) r"
    by (simp add: wf_pattern_def)
  from assms(2) obtain p0 s0 st' where "st' \<in> set (ends ic r (p0, s0, []))" "snd m = snd (snd st')"
    unfolding re_finditer_def by (blast dest: finditer_caps)
  with ends_binds [OF b] have "ngroups r \<in> fst ` set (snd m)"
    by simp
  then have "map_of (snd m) (ngroups r) \<noteq> None"
    by (simp add: map_of_eq_None_iff)
  with False show ?thesis
    by (auto simp: candidate_def)
qed

lemma check_match_total:
  assumes "wf_pattern r" "m \<in> set (re_finditer True r text)"
  shows "\<exists>ys. check_match cat r ty m = Inr ys"
proof -
  from candidate_total [OF assms] obtain t where "candidate r m = Some t"
    by blast
  then show ?thesis
    by (simp add: check_match_def)
qed

lemma collect_total: "(\<And>x. x \<in> set xs \<Longrightarrow> \<exists>ys. f x = Inr ys) \<Longrightarrow> \<exists>zs. collect f xs = Inr zs"
proof (induction xs)
  case Nil
  then show ?case by simp
next
  case (Cons x xs)
  from Cons.prems [of x] obtain ys where "f x = Inr ys"
    by auto
  moreover from Cons.IH Cons.prems obtain zs where "collect f xs = Inr zs"
    by auto
  ultimately show ?case by simp
qed

lemma collect_mem:
  "collect f xs = Inr zs \<Longrightarrow> z \<in> set zs \<Longrightarrow> \<exists>x \<in> set xs. \<exists>ys. f x = Inr ys \<and> z \<in> set ys"
proof (induction xs arbitrary: zs)
  case Nil
  then show ?case by simp
next
  case (Cons x xs)
  from Cons.prems(1) obtain ys zs' where f: "f x = Inr ys" and c: "collect f xs = Inr zs'"
    and zs: "zs = ys @ zs'"
    by (auto split: sum.splits)
  from Cons.prems(2) zs have "z \<in> set ys \<or> z \<in> set zs'"
    by simp
  then show ?case
  proof
    assume "z \<in> set ys"
    with f show ?thesis by auto
  next
    assume "z \<in> set zs'"
    from Cons.IH [OF c this] show ?thesis by auto
  qed
qed

lemma patterns_all_wf:
  "list_all (\<lambda>cp. list_all (\<lambda>ps. wf_pattern (fst ps)) (snd cp)) SENSITIVE_PATTERNS"
  by (simp add: SENSITIVE_PATTERNS_def wf_pattern_def labelled_def db_url_def key_block_def
    str_def opt_def star_def plus_def lazy_plus_def exactly_def at_least_def
    token20_def token20dot_def hex_def digit_def jwt_part_def ws_def quote_opt_def sep_opt_def
    not_quote_space_def alnum_def squote_def
    pat_API_KEY_def pat_ACCESS_TOKEN_def pat_BEARER_TOKEN_def pat_OPENAI_API_KEY_def
    pat_GOOGLE_API_KEY_def pat_UUID_TOKEN_def pat_AWS_ACCESS_KEY_def pat_AWS_SECRET_def
    pat_PASSWORD_def pat_MYSQL_PASSWORD_def pat_POSTGRES_PASSWORD_def pat_MONGODB_PASSWORD_def
    pat_DB_PASSWORD_def pat_PRIVATE_KEY_def pat_SSH_PRIVATE_KEY_def pat_CLIENT_SECRET_def
    pat_CLIENT_ID_def pat_SECRET_KEY_def pat_AUTH_TOKEN_def pat_CREDIT_CARD_def pat_JWT_TOKEN_def)

lemma patterns_wf: "cp \<in> set SENSITIVE_PATTERNS \<Longrightarrow> ps \<in> set (snd cp) \<Longrightarrow> wf_pattern (fst ps)"
  using patterns_all_wf by (simp add: list_all_iff)

lemma detect_secrets_total: "\<exists>secrets. detect_secrets text = Inr secrets"
proof (cases "text = []")
  case True
  then show ?thesis by (simp add: detect_secrets_def)
next
  case False
  have "\<exists>zs. collect (detect_category text) SENSITIVE_PATTERNS = Inr zs"
  proof (rule collect_total)
    fix cp assume cp: "cp \<in> set SENSITIVE_PATTERNS"
    show "\<exists>ys. detect_category text cp = Inr ys"
      unfolding detect_category_def
    proof (rule collect_total)
      fix ps assume ps: "ps \<in> set (snd cp)"
      from cp ps have wf: "wf_pattern (fst ps)"
        by (rule patterns_wf)
      show "\<exists>ys. detect_pattern text (fst cp) ps = Inr ys"
        unfolding detect_pattern_def
        by (rule collect_total) (rule check_match_total [OF wf])
    qed
  qed
  with False show ?thesis
    by (simp add: detect_secrets_def)
qed

lemma redact_text_total: "\<exists>r st. redact_text text = Inr (r, st)"
proof -
  obtain secrets where "detect_secrets text = Inr secrets"
    using detect_secrets_total by blast
  then show ?thesis
    by (cases "redact_loop (sort_longest_first secrets) (text, [])") (simp add: redact_text_def)
qed

lemma redact_field_total: "\<exists>d st. redact_field k acc = Inr (d, st)"
proof (cases "map_of (fst acc) k")
  case None
  then show ?thesis by (cases acc) (simp add: redact_field_def)
next
  case (Some v)
  show ?thesis
  proof (cases v)
    case (JStr s)
    obtain r st where "redact_text s = Inr (r, st)"
      using redact_text_total by blast
    with Some JStr show ?thesis by (simp add: redact_field_def)
  qed (use Some in \<open>cases acc; simp add: redact_field_def\<close>)+
qed

lemma redact_items_total: "\<exists>rs st'. redact_items items st = Inr (rs, st')"
proof (induction items st rule: redact_items.induct)
  case (1 stats)
  then show ?case by simp
next
  case (2 item rest stats)
  obtain d1 st1 where f1: "redact_field ''text'' (item, stats) = Inr (d1, st1)"
    using redact_field_total by blast
  obtain d2 st2 where f2: "redact_field ''content'' (d1, st1) = Inr (d2, st2)"
    using redact_field_total by blast
  from "2.IH" [OF f1 f2 refl] obtain rs st3 where "redact_items rest st2 = Inr (rs, st3)"
    by blast
  with f1 f2 show ?case by simp
qed (auto split: sum.splits)

lemma redact_message_content_total: "\<exists>r st. redact_message_content c = Inr (r, st)"
proof (cases c)
  case (JStr s)
  obtain r st where "redact_text s = Inr (r, st)"
    using redact_text_total by blast
  with JStr show ?thesis by simp
next
  case (JArr items)
  obtain rs st where "redact_items items [] = Inr (rs, st)"
    using redact_items_total by blast
  with JArr show ?thesis by simp
qed simp_all

section \<open>The whitelist\<close>

lemma check_match_mem:
  "check_match cat r ty m = Inr ys \<Longrightarrow> z \<in> set ys \<Longrightarrow> \<not> is_whitelisted (fst z) \<and> 8 \<le> length (fst z)"
  by (auto simp: check_match_def split: option.splits if_splits)

lemma detected_not_whitelisted:
  assumes "detect_secrets text = Inr secrets" "z \<in> set secrets"
  shows "\<not> is_whitelisted (fst z) \<and> 8 \<le> length (fst z)"
proof -
  from assms have c: "collect (detect_category text) SENSITIVE_PATTERNS = Inr secrets"
    by (auto simp: detect_secrets_def split: if_splits)
  from collect_mem [OF c assms(2)] obtain cp ys where "detect_category text cp = Inr ys" "z \<in> set ys"
    by blast
  from collect_mem [OF this [unfolded detect_category_def]] obtain ps ys'
    where "detect_pattern text (fst cp) ps = Inr ys'" "z \<in> set ys'"
    by blast
  from collect_mem [OF this [unfolded detect_pattern_def]] obtain m ys''
    where "check_match (fst cp) (fst ps) (snd ps) m = Inr ys''" "z \<in> set ys''"
    by blast
  then show ?thesis
    by (rule check_match_mem)
qed

lemma ends_str:
  "list_all2 (lit_match ic) w u \<Longrightarrow> w \<noteq> [] \<Longrightarrow>
     ends ic (str w) (p, u @ v, g) = [(Some (last u), v, g)]"
proof (induction w arbitrary: u p)
  case Nil
  then show ?case by simp
next
  case (Cons c w)
  from Cons.prems(1) obtain d u' where u: "u = d # u'" and cd: "lit_match ic c d"
    and rest: "list_all2 (lit_match ic) w u'"
    by (auto simp: list_all2_Cons1)
  show ?case
  proof (cases w)
    case Nil
    with rest have "u' = []" by simp
    with Nil u cd show ?thesis by (simp add: str_def)
  next
    case (Cons c' w')
    with rest have "u' \<noteq> []" by auto
    from Cons.IH [OF rest, of "Some d"] Cons
    have "ends ic (str w) (Some d, u' @ v, g) = [(Some (last u'), v, g)]"
      by simp
    with cd Cons u \<open>u' \<noteq> []\<close> show ?thesis
      by (simp add: str_def)
  qed
qed

lemma search_from_finds:
  "(\<And>p'. ends ic r (p', s2, []) \<noteq> []) \<Longrightarrow> search_from ic r p (s1 @ s2) \<noteq> None"
proof (induction s1 arbitrary: p)
  case Nil
  from Nil [of p] have "match_at ic r p s2 \<noteq> None"
    by (auto simp: match_at_def split: list.splits)
  then show ?case
    by (cases s2) auto
next
  case (Cons c s1)
  from Cons.IH [OF Cons.prems] show ?case
    by (auto split: option.splits)
qed

lemma lowered_match: "map lower w = map lower u \<Longrightarrow> list_all2 (lit_match True) w u"
  by (induction w arbitrary: u) (auto simp: lit_match_def)

text \<open>A text that holds \<open>w\<close>, letter case aside, splits around a part that matches \<open>w\<close>.\<close>

lemma sublist_lowered:
  assumes "sublist (map lower w) (map lower s)"
  obtains s1 u s2 where "s = s1 @ u @ s2" "map lower u = map lower w"
proof -
  from assms obtain ps ss where "map lower s = ps @ map lower w @ ss"
    by (auto simp: sublist_def)
  then obtain s1 r where s: "s = s1 @ r" and "map lower r = map lower w @ ss"
    by (metis map_eq_append_conv)
  then obtain u s2 where "r = u @ s2" "map lower u = map lower w"
    by (metis map_eq_append_conv)
  with s that show ?thesis by blast
qed

lemma search_str:
  assumes "sublist (map lower w) (map lower s)" "w \<noteq> []"
  shows "re_search True (str w) s \<noteq> None"
proof -
  from assms(1) obtain s1 u s2 where s: "s = s1 @ u @ s2" and u: "map lower u = map lower w"
    by (rule sublist_lowered)
  from u have "list_all2 (lit_match True) w u"
    by (intro lowered_match) simp
  from ends_str [OF this assms(2)] have "\<And>p'. ends True (str w) (p', u @ s2, []) \<noteq> []"
    by simp
  then show ?thesis
    unfolding re_search_def s by (rule search_from_finds)
qed

lemma rep_stop: "st \<in> set (rep f 0 n greedy st)"
  by (subst rep_mem) simp

lemma rep_more:
  "x \<in> set (f st) \<Longrightarrow> length (fst (snd x)) < length (fst (snd st)) \<Longrightarrow> n \<noteq> Some 0 \<Longrightarrow>
   y \<in> set (rep f (m - 1) (map_option (\<lambda>k. k - 1) n) greedy x) \<Longrightarrow> y \<in> set (rep f m n greedy st)"
  by (subst rep_mem) blast

text \<open>Repeating a literal over a run of characters that match it.\<close>

lemma rep_lit_run:
  "list_all (lit_match ic c) u \<Longrightarrow> m \<le> length u \<Longrightarrow> \<exists>y. y \<in> set (rep (ends ic (Lit c)) m None greedy (p, u @ v, g))"
proof (induction u arbitrary: m p)
  case Nil
  then have "m = 0" by simp
  then show ?case using rep_stop by blast
next
  case (Cons d u)
  show ?case
  proof (cases m)
    case 0
    then show ?thesis using rep_stop by blast
  next
    case (Suc m')
    with Cons.prems have "list_all (lit_match ic c) u" "m' \<le> length u"
      by simp_all
    from Cons.IH [OF this, of "Some d"] obtain y
      where y: "y \<in> set (rep (ends ic (Lit c)) m' None greedy (Some d, u @ v, g))"
      by blast
    have "y \<in> set (rep (ends ic (Lit c)) m None greedy (p, (d # u) @ v, g))"
    proof (rule rep_more)
      show "(Some d, u @ v, g) \<in> set (ends ic (Lit c) (p, (d # u) @ v, g))"
        using Cons.prems(1) by simp
      show "y \<in> set (rep (ends ic (Lit c)) (m - 1) (map_option (\<lambda>k. k - 1) None) greedy (Some d, u @ v, g))"
        using y Suc by simp
    qed simp_all
    then show ?thesis by blast
  qed
qed

lemma search_stars:
  assumes "sublist (map lower ''***'') (map lower s)"
  shows "re_search True (at_least 3 (Lit CHR ''*'')) s \<noteq> None"
proof -
  from assms obtain s1 u s2 where s: "s = s1 @ u @ s2" and u: "map lower u = map lower ''***''"
    by (rule sublist_lowered)
  from u have "list_all2 (lit_match True) ''***'' u"
    by (intro lowered_match) simp
  then have "list_all (lit_match True CHR ''*'') u" and "length u = 3"
    by (auto simp: list_all2_Cons1)
  then have run: "\<And>p'. \<exists>y. y \<in> set (rep (ends True (Lit CHR ''*'')) 3 None True (p', u @ s2, []))"
    by (intro rep_lit_run) simp_all
  have "\<And>p'. ends True (at_least 3 (Lit CHR ''*'')) (p', u @ s2, []) \<noteq> []"
  proof -
    fix p'
    from run [of p'] show "ends True (at_least 3 (Lit CHR ''*'')) (p', u @ s2, []) \<noteq> []"
      by (auto simp: at_least_def)
  qed
  then show ?thesis
    unfolding re_search_def s by (rule search_from_finds)
qed

lemma search_xxx:
  assumes "sublist (map lower ''xxx'') (map lower s)"
  shows "re_search True (Seq (str ''xx'') (plus (Lit CHR ''x''))) s \<noteq> None"
proof -
  from assms obtain s1 u s2 where s: "s = s1 @ u @ s2" and u: "map lower u = map lower ''xxx''"
    by (rule sublist_lowered)
  from u have "list_all2 (lit_match True) ''xxx'' u"
    by (intro lowered_match) simp
  then obtain a b c where abc: "u = [a, b, c]" and m: "lit_match True CHR ''x'' a"
    "lit_match True CHR ''x'' b" "lit_match True CHR ''x'' c"
    by (auto simp: list_all2_Cons1)
  have "\<And>p'. ends True (Seq (str ''xx'') (plus (Lit CHR ''x''))) (p', u @ s2, []) \<noteq> []"
  proof -
    fix p'
    from m have "list_all2 (lit_match True) ''xx'' [a, b]"
      by simp
    from ends_str [OF this, of p' "c # s2" "[]"]
    have xx: "ends True (str ''xx'') (p', u @ s2, []) = [(Some b, c # s2, [])]"
      by (simp add: abc)
    from m(3) have "\<exists>y. y \<in> set (rep (ends True (Lit CHR ''x'')) 1 None True (Some b, [c] @ s2, []))"
      by (intro rep_lit_run) simp_all
    then have "ends True (plus (Lit CHR ''x'')) (Some b, c # s2, []) \<noteq> []"
      by (auto simp: plus_def)
    with xx show "ends True (Seq (str ''xx'') (plus (Lit CHR ''x''))) (p', u @ s2, []) \<noteq> []"
      by simp
  qed
  then show ?thesis
    unfolding re_search_def s by (rule search_from_finds)
qed

lemma whitelisted_substring:
  assumes "w \<in> set [''example.com'', ''localhost'', ''127.0.0.1'', ''test'', ''demo'', ''sample'',
                      ''placeholder'', ''***'', ''xxx'']"
    and "sublist (map lower w) (map lower s)"
  shows "is_whitelisted s"
proof -
  have "\<exists>pattern \<in> set WHITELIST_PATTERNS. re_search True pattern s \<noteq> None"
  proof (cases "w = ''***'' \<or> w = ''xxx''")
    case True
    then show ?thesis
    proof
      assume "w = ''***''"
      with assms(2) have "re_search True (at_least 3 (Lit CHR ''*'')) s \<noteq> None"
        by (intro search_stars) simp
      then show ?thesis
        by (auto simp: WHITELIST_PATTERNS_def)
    next
      assume "w = ''xxx''"
      with assms(2) have "re_search True (Seq (str ''xx'') (plus (Lit CHR ''x''))) s \<noteq> None"
        by (intro search_xxx) simp
      then show ?thesis
        by (auto simp: WHITELIST_PATTERNS_def)
    qed
  next
    case False
    with assms(1) have "str w \<in> set WHITELIST_PATTERNS" and "w \<noteq> []"
      by (auto simp: WHITELIST_PATTERNS_def)
    moreover from assms(2) \<open>w \<noteq> []\<close> have "re_search True (str w) s \<noteq> None"
      by (rule search_str)
    ultimately show ?thesis by blast
  qed
  then show ?thesis
    by (simp add: is_whitelisted_def list_ex_iff)
qed

section \<open>Evaluating the matcher on a given text\<close>

lemma finditer_from_step: "finditer_from ic r p s = finditer_step ic r p s (match_at ic r p s)"
  by (subst finditer_from.simps) (auto split: option.splits list.splits)

lemma match_at_first_end: "match_at ic r p s = first_end s (ends ic r (p, s, []))"
  by (auto simp: match_at_def split: list.splits)

lemma search_from_step: "search_from ic r p s = search_step ic r s (match_at ic r p s)"
  by (cases s; cases "match_at ic r p s") auto

lemma replace_by_step: "replace s (o1 # old) new = replace_step s (o1 # old) new (prefix (o1 # old) s)"
  by (subst replace.simps) (auto split: list.splits)

lemma split_from_step:
  "split_from (c1 # sep) s piece = split_step (c1 # sep) s piece (prefix (c1 # sep) s)"
  by (subst split_from.simps) (auto split: list.splits)

text \<open>The characters 0..127 and their code points, lowercase and uppercase forms.\<close>

lemma ord_table:
  "ord (CHR 0x00) = 0" "ord (CHR 0x01) = 1" "ord (CHR 0x02) = 2" "ord (CHR 0x03) = 3"
  "ord (CHR 0x04) = 4" "ord (CHR 0x05) = 5" "ord (CHR 0x06) = 6" "ord (CHR 0x07) = 7"
  "ord (CHR 0x08) = 8" "ord (CHR 0x09) = 9" "ord (CHR 0x0A) = 10" "ord (CHR 0x0B) = 11"
  "ord (CHR 0x0C) = 12" "ord (CHR 0x0D) = 13" "ord (CHR 0x0E) = 14" "ord (CHR 0x0F) = 15"
  "ord (CHR 0x10) = 16" "ord (CHR 0x11) = 17" "ord (CHR 0x12) = 18" "ord (CHR 0x13) = 19"
  "ord (CHR 0x14) = 20" "ord (CHR 0x15) = 21" "ord (CHR 0x16) = 22" "ord (CHR 0x17) = 23"
  "ord (CHR 0x18) = 24" "ord (CHR 0x19) = 25" "ord (CHR 0x1A) = 26" "ord (CHR 0x1B) = 27"
  "ord (CHR 0x1C) = 28" "ord (CHR 0x1D) = 29" "ord (CHR 0x1E) = 30" "ord (CHR 0x1F) = 31"
  "ord (CHR 0x20) = 32" "ord (CHR 0x21) = 33" "ord (CHR 0x22) = 34" "ord (CHR 0x23) = 35"
  "ord (CHR 0x24) = 36" "ord (CHR 0x25) = 37" "ord (CHR 0x26) = 38" "ord (CHR 0x27) = 39"
  "ord (CHR 0x28) = 40" "ord (CHR 0x29) = 41" "ord (CHR 0x2A) = 42" "ord (CHR 0x2B) = 43"
  "ord (CHR 0x2C) = 44" "ord (CHR 0x2D) = 45" "ord (CHR 0x2E) = 46" "ord (CHR 0x2F) = 47"
  "ord (CHR 0x30) = 48" "ord (CHR 0x31) = 49" "ord (CHR 0x32) = 50" "ord (CHR 0x33) = 51"
  "ord (CHR 0x34) = 52" "ord (CHR 0x35) = 53" "ord (CHR 0x36) = 54" "ord (CHR 0x37) = 55"
  "ord (CHR 0x38) = 56" "ord (CHR 0x39) = 57" "ord (CHR 0x3A) = 58" "ord (CHR 0x3B) = 59"
  "ord (CHR 0x3C) = 60" "ord (CHR 0x3D) = 61" "ord (CHR 0x3E) = 62" "ord (CHR 0x3F) = 63"
  "ord (CHR 0x40) = 64" "ord (CHR 0x41) = 65" "ord (CHR 0x42) = 66" "ord (CHR 0x43) = 67"
  "ord (CHR 0x44) = 68" "ord (CHR 0x45) = 69" "ord (CHR 0x46) = 70" "ord (CHR 0x47) = 71"
  "ord (CHR 0x48) = 72" "ord (CHR 0x49) = 73" "ord (CHR 0x4A) = 74" "ord (CHR 0x4B) = 75"
  "ord (CHR 0x4C) = 76" "ord (CHR 0x4D) = 77" "ord (CHR 0x4E) = 78" "ord (CHR 0x4F) = 79"
  "ord (CHR 0x50) = 80" "ord (CHR 0x51) = 81" "ord (CHR 0x52) = 82" "ord (CHR 0x53) = 83"
  "ord (CHR 0x54) = 84" "ord (CHR 0x55) = 85" "ord (CHR 0x56) = 86" "ord (CHR 0x57) = 87"
  "ord (CHR 0x58) = 88" "ord (CHR 0x59) = 89" "ord (CHR 0x5A) = 90" "ord (CHR 0x5B) = 91"
  "ord (CHR 0x5C) = 92" "ord (CHR 0x5D) = 93" "ord (CHR 0x5E) = 94" "ord (CHR 0x5F) = 95"
  "ord (CHR 0x60) = 96" "ord (CHR 0x61) = 97" "ord (CHR 0x62) = 98" "ord (CHR 0x63) = 99"
  "ord (CHR 0x64) = 100" "ord (CHR 0x65) = 101" "ord (CHR 0x66) = 102" "ord (CHR 0x67) = 103"
  "ord (CHR 0x68) = 104" "ord (CHR 0x69) = 105" "ord (CHR 0x6A) = 106" "ord (CHR 0x6B) = 107"
  "ord (CHR 0x6C) = 108" "ord (CHR 0x6D) = 109" "ord (CHR 0x6E) = 110" "ord (CHR 0x6F) = 111"
  "ord (CHR 0x70) = 112" "ord (CHR 0x71) = 113" "ord (CHR 0x72) = 114" "ord (CHR 0x73) = 115"
  "ord (CHR 0x74) = 116" "ord (CHR 0x75) = 117" "ord (CHR 0x76) = 118" "ord (CHR 0x77) = 119"
  "ord (CHR 0x78) = 120" "ord (CHR 0x79) = 121" "ord (CHR 0x7A) = 122" "ord (CHR 0x7B) = 123"
  "ord (CHR 0x7C) = 124" "ord (CHR 0x7D) = 125" "ord (CHR 0x7E) = 126" "ord (CHR 0x7F) = 127"
  by (simp_all add: ord_def)

lemma lower_table:
  "lower (CHR 0x00) = CHR 0x00" "lower (CHR 0x01) = CHR 0x01" "lower (CHR 0x02) = CHR 0x02"
  "lower (CHR 0x03) = CHR 0x03" "lower (CHR 0x04) = CHR 0x04" "lower (CHR 0x05) = CHR 0x05"
  "lower (CHR 0x06) = CHR 0x06" "lower (CHR 0x07) = CHR 0x07" "lower (CHR 0x08) = CHR 0x08"
  "lower (CHR 0x09) = CHR 0x09" "lower (CHR 0x0A) = CHR 0x0A" "lower (CHR 0x0B) = CHR 0x0B"
  "lower (CHR 0x0C) = CHR 0x0C" "lower (CHR 0x0D) = CHR 0x0D" "lower (CHR 0x0E) = CHR 0x0E"
  "lower (CHR 0x0F) = CHR 0x0F" "lower (CHR 0x10) = CHR 0x10" "lower (CHR 0x11) = CHR 0x11"
  "lower (CHR 0x12) = CHR 0x12" "lower (CHR 0x13) = CHR 0x13" "lower (CHR 0x14) = CHR 0x14"
  "lower (CHR 0x15) = CHR 0x15" "lower (CHR 0x16) = CHR 0x16" "lower (CHR 0x17) = CHR 0x17"
  "lower (CHR 0x18) = CHR 0x18" "lower (CHR 0x19) = CHR 0x19" "lower (CHR 0x1A) = CHR 0x1A"
  "lower (CHR 0x1B) = CHR 0x1B" "lower (CHR 0x1C) = CHR 0x1C" "lower (CHR 0x1D) = CHR 0x1D"
  "lower (CHR 0x1E) = CHR 0x1E" "lower (CHR 0x1F) = CHR 0x1F" "lower (CHR 0x20) = CHR 0x20"
  "lower (CHR 0x21) = CHR 0x21" "lower (CHR 0x22) = CHR 0x22" "lower (CHR 0x23) = CHR 0x23"
  "lower (CHR 0x24) = CHR 0x24" "lower (CHR 0x25) = CHR 0x25" "lower (CHR 0x26) = CHR 0x26"
  "lower (CHR 0x27) = CHR 0x27" "lower (CHR 0x28) = CHR 0x28" "lower (CHR 0x29) = CHR 0x29"
  "lower (CHR 0x2A) = CHR 0x2A" "lower (CHR 0x2B) = CHR 0x2B" "lower (CHR 0x2C) = CHR 0x2C"
  "lower (CHR 0x2D) = CHR 0x2D" "lower (CHR 0x2E) = CHR 0x2E" "lower (CHR 0x2F) = CHR 0x2F"
  "lower (CHR 0x30) = CHR 0x30" "lower (CHR 0x31) = CHR 0x31" "lower (CHR 0x32) = CHR 0x32"
  "lower (CHR 0x33) = CHR 0x33" "lower (CHR 0x34) = CHR 0x34" "lower (CHR 0x35) = CHR 0x35"
  "lower (CHR 0x36) = CHR 0x36" "lower (CHR 0x37) = CHR 0x37" "lower (CHR 0x38) = CHR 0x38"
  "lower (CHR 0x39) = CHR 0x39" "lower (CHR 0x3A) = CHR 0x3A" "lower (CHR 0x3B) = CHR 0x3B"
  "lower (CHR 0x3C) = CHR 0x3C" "lower (CHR 0x3D) = CHR 0x3D" "lower (CHR 0x3E) = CHR 0x3E"
  "lower (CHR 0x3F) = CHR 0x3F" "lower (CHR 0x40) = CHR 0x40" "lower (CHR 0x41) = CHR 0x61"
  "lower (CHR 0x42) = CHR 0x62" "lower (CHR 0x43) = CHR 0x63" "lower (CHR 0x44) = CHR 0x64"
  "lower (CHR 0x45) = CHR 0x65" "lower (CHR 0x46) = CHR 0x66" "lower (CHR 0x47) = CHR 0x67"
  "lower (CHR 0x48) = CHR 0x68" "lower (CHR 0x49) = CHR 0x69" "lower (CHR 0x4A) = CHR 0x6A"
  "lower (CHR 0x4B) = CHR 0x6B" "lower (CHR 0x4C) = CHR 0x6C" "lower (CHR 0x4D) = CHR 0x6D"
  "lower (CHR 0x4E) = CHR 0x6E" "lower (CHR 0x4F) = CHR 0x6F" "lower (CHR 0x50) = CHR 0x70"
  "lower (CHR 0x51) = CHR 0x71" "lower (CHR 0x52) = CHR 0x72" "lower (CHR 0x53) = CHR 0x73"
  "lower (CHR 0x54) = CHR 0x74" "lower (CHR 0x55) = CHR 0x75" "lower (CHR 0x56) = CHR 0x76"
  "lower (CHR 0x57) = CHR 0x77" "lower (CHR 0x58) = CHR 0x78" "lower (CHR 0x59) = CHR 0x79"
  "lower (CHR 0x5A) = CHR 0x7A" "lower (CHR 0x5B) = CHR 0x5B" "lower (CHR 0x5C) = CHR 0x5C"
  "lower (CHR 0x5D) = CHR 0x5D" "lower (CHR 0x5E) = CHR 0x5E" "lower (CHR 0x5F) = CHR 0x5F"
  "lower (CHR 0x60) = CHR 0x60" "lower (CHR 0x61) = CHR 0x61" "lower (CHR 0x62) = CHR 0x62"
  "lower (CHR 0x63) = CHR 0x63" "lower (CHR 0x64) = CHR 0x64" "lower (CHR 0x65) = CHR 0x65"
  "lower (CHR 0x66) = CHR 0x66" "lower (CHR 0x67) = CHR 0x67" "lower (CHR 0x68) = CHR 0x68"
  "lower (CHR 0x69) = CHR 0x69" "lower (CHR 0x6A) = CHR 0x6A" "lower (CHR 0x6B) = CHR 0x6B"
  "lower (CHR 0x6C) = CHR 0x6C" "lower (CHR 0x6D) = CHR 0x6D" "lower (CHR 0x6E) = CHR 0x6E"
  "lower (CHR 0x6F) = CHR 0x6F" "lower (CHR 0x70) = CHR 0x70" "lower (CHR 0x71) = CHR 0x71"
  "lower (CHR 0x72) = CHR 0x72" "lower (CHR 0x73) = CHR 0x73" "lower (CHR 0x74) = CHR 0x74"
  "lower (CHR 0x75) = CHR 0x75" "lower (CHR 0x76) = CHR 0x76" "lower (CHR 0x77) = CHR 0x77"
  "lower (CHR 0x78) = CHR 0x78" "lower (CHR 0x79) = CHR 0x79" "lower (CHR 0x7A) = CHR 0x7A"
  "lower (CHR 0x7B) = CHR 0x7B" "lower (CHR 0x7C) = CHR 0x7C" "lower (CHR 0x7D) = CHR 0x7D"
  "lower (CHR 0x7E) = CHR 0x7E" "lower (CHR 0x7F) = CHR 0x7F"
  by (simp_all add: lower_def is_upper_def in_range_def ord_def char_of_def bit_Suc_0_iff)

lemma upper_table:
  "upper (CHR 0x00) = CHR 0x00" "upper (CHR 0x01) = CHR 0x01" "upper (CHR 0x02) = CHR 0x02"
  "upper (CHR 0x03) = CHR 0x03" "upper (CHR 0x04) = CHR 0x04" "upper (CHR 0x05) = CHR 0x05"
  "upper (CHR 0x06) = CHR 0x06" "upper (CHR 0x07) = CHR 0x07" "upper (CHR 0x08) = CHR 0x08"
  "upper (CHR 0x09) = CHR 0x09" "upper (CHR 0x0A) = CHR 0x0A" "upper (CHR 0x0B) = CHR 0x0B"
  "upper (CHR 0x0C) = CHR 0x0C" "upper (CHR 0x0D) = CHR 0x0D" "upper (CHR 0x0E) = CHR 0x0E"
  "upper (CHR 0x0F) = CHR 0x0F" "upper (CHR 0x10) = CHR 0x10" "upper (CHR 0x11) = CHR 0x11"
  "upper (CHR 0x12) = CHR 0x12" "upper (CHR 0x13) = CHR 0x13" "upper (CHR 0x14) = CHR 0x14"
  "upper (CHR 0x15) = CHR 0x15" "upper (CHR 0x16) = CHR 0x16" "upper (CHR 0x17) = CHR 0x17"
  "upper (CHR 0x18) = CHR 0x18" "upper (CHR 0x19) = CHR 0x19" "upper (CHR 0x1A) = CHR 0x1A"
  "upper (CHR 0x1B) = CHR 0x1B" "upper (CHR 0x1C) = CHR 0x1C" "upper (CHR 0x1D) = CHR 0x1D"
  "upper (CHR 0x1E) = CHR 0x1E" "upper (CHR 0x1F) = CHR 0x1F" "upper (CHR 0x20) = CHR 0x20"
  "upper (CHR 0x21) = CHR 0x21" "upper (CHR 0x22) = CHR 0x22" "upper (CHR 0x23) = CHR 0x23"
  "upper (CHR 0x24) = CHR 0x24" "upper (CHR 0x25) = CHR 0x25" "upper (CHR 0x26) = CHR 0x26"
  "upper (CHR 0x27) = CHR 0x27" "upper (CHR 0x28) = CHR 0x28" "upper (CHR 0x29) = CHR 0x29"
  "upper (CHR 0x2A) = CHR 0x2A" "upper (CHR 0x2B) = CHR 0x2B" "upper (CHR 0x2C) = CHR 0x2C"
  "upper (CHR 0x2D) = CHR 0x2D" "upper (CHR 0x2E) = CHR 0x2E" "upper (CHR 0x2F) = CHR 0x2F"
  "upper (CHR 0x30) = CHR 0x30" "upper (CHR 0x31) = CHR 0x31" "upper (CHR 0x32) = CHR 0x32"
  "upper (CHR 0x33) = CHR 0x33" "upper (CHR 0x34) = CHR 0x34" "upper (CHR 0x35) = CHR 0x35"
  "upper (CHR 0x36) = CHR 0x36" "upper (CHR 0x37) = CHR 0x37" "upper (CHR 0x38) = CHR 0x38"
  "upper (CHR 0x39) = CHR 0x39" "upper (CHR 0x3A) = CHR 0x3A" "upper (CHR 0x3B) = CHR 0x3B"
  "upper (CHR 0x3C) = CHR 0x3C" "upper (CHR 0x3D) = CHR 0x3D" "upper (CHR 0x3E) = CHR 0x3E"
  "upper (CHR 0x3F) = CHR 0x3F" "upper (CHR 0x40) = CHR 0x40" "upper (CHR 0x41) = CHR 0x41"
  "upper (CHR 0x42) = CHR 0x42" "upper (CHR 0x43) = CHR 0x43" "upper (CHR 0x44) = CHR 0x44"
  "upper (CHR 0x45) = CHR 0x45" "upper (CHR 0x46) = CHR 0x46" "upper (CHR 0x47) = CHR 0x47"
  "upper (CHR 0x48) = CHR 0x48" "upper (CHR 0x49) = CHR 0x49" "upper (CHR 0x4A) = CHR 0x4A"
  "upper (CHR 0x4B) = CHR 0x4B" "upper (CHR 0x4C) = CHR 0x4C" "upper (CHR 0x4D) = CHR 0x4D"
  "upper (CHR 0x4E) = CHR 0x4E" "upper (CHR 0x4F) = CHR 0x4F" "upper (CHR 0x50) = CHR 0x50"
  "upper (CHR 0x51) = CHR 0x51" "upper (CHR 0x52) = CHR 0x52" "upper (CHR 0x53) = CHR 0x53"
  "upper (CHR 0x54) = CHR 0x54" "upper (CHR 0x55) = CHR 0x55" "upper (CHR 0x56) = CHR 0x56"
  "upper (CHR 0x57) = CHR 0x57" "upper (CHR 0x58) = CHR 0x58" "upper (CHR 0x59) = CHR 0x59"
  "upper (CHR 0x5A) = CHR 0x5A" "upper (CHR 0x5B) = CHR 0x5B" "upper (CHR 0x5C) = CHR 0x5C"
  "upper (CHR 0x5D) = CHR 0x5D" "upper (CHR 0x5E) = CHR 0x5E" "upper (CHR 0x5F) = CHR 0x5F"
  "upper (CHR 0x60) = CHR 0x60" "upper (CHR 0x61) = CHR 0x41" "upper (CHR 0x62) = CHR 0x42"
  "upper (CHR 0x63) = CHR 0x43" "upper (CHR 0x64) = CHR 0x44" "upper (CHR 0x65) = CHR 0x45"
  "upper (CHR 0x66) = CHR 0x46" "upper (CHR 0x67) = CHR 0x47" "upper (CHR 0x68) = CHR 0x48"
  "upper (CHR 0x69) = CHR 0x49" "upper (CHR 0x6A) = CHR 0x4A" "upper (CHR 0x6B) = CHR 0x4B"
  "upper (CHR 0x6C) = CHR 0x4C" "upper (CHR 0x6D) = CHR 0x4D" "upper (CHR 0x6E) = CHR 0x4E"
  "upper (CHR 0x6F) = CHR 0x4F" "upper (CHR 0x70) = CHR 0x50" "upper (CHR 0x71) = CHR 0x51"
  "upper (CHR 0x72) = CHR 0x52" "upper (CHR 0x73) = CHR 0x53" "upper (CHR 0x74) = CHR 0x54"
  "upper (CHR 0x75) = CHR 0x55" "upper (CHR 0x76) = CHR 0x56" "upper (CHR 0x77) = CHR 0x57"
  "upper (CHR 0x78) = CHR 0x58" "upper (CHR 0x79) = CHR 0x59" "upper (CHR 0x7A) = CHR 0x5A"
  "upper (CHR 0x7B) = CHR 0x7B" "upper (CHR 0x7C) = CHR 0x7C" "upper (CHR 0x7D) = CHR 0x7D"
  "upper (CHR 0x7E) = CHR 0x7E" "upper (CHR 0x7F) = CHR 0x7F"
  by (simp_all add: upper_def is_lower_def in_range_def ord_def char_of_def bit_Suc_0_iff)

lemma length_eval: "length [] = 0" "length (x # xs) = Suc (length xs)"
  by simp_all

lemma nat_eval:
  "(0::nat) - 1 = 0" "(1::nat) - 1 = 0" "numeral k - (1::nat) = pred_numeral k"
  "((0::nat) = 0) = True" "((1::nat) = 0) = False" "(numeral k = (0::nat)) = False"
  "(Suc 0 = 1) = True" "(Suc (Suc 0) = 2) = True" "(Suc (Suc 0) = 1) = False" "(Suc 0 = 2) = False"
  "(Suc n \<le> 0) = False"
  by simp_all

lemma prefix_eval:
  "prefix [] ys = True" "prefix (x # xs) [] = False"
  "prefix (x # xs) (y # ys) = (x = y \<and> prefix xs ys)"
  by simp_all

lemmas eval_chars = char.inject ord_table lower_table upper_table in_range_def is_upper_def
  is_lower_def py_isspace_def py_isword_def lit_match_def item_match.simps cls_match_def
  at_boundary_def rel_simps arith_simps insert_iff empty_iff

lemmas eval_lists = list.map concat.simps append.simps filter.simps list_ex_Nil_iff list_ex_Cons_iff
  list.case prod.case option.case sum.case fst_conv snd_conv length_eval take_Suc_Cons take_0
  take.simps(1) drop_Suc_Cons drop_0 drop.simps(1) option.map list.inject list.distinct
  option.inject option.distinct prod.inject sum.inject sum.distinct if_True if_False simp_thms
  Let_def Suc_less_eq zero_less_Suc not_less0 diff_Suc_Suc minus_nat.diff_0 diff_0_eq_0 nat.inject
  nat.distinct nat_eval pred_numeral_simps prefix_eval foldl.simps map_of.simps fun_upd_apply
  less_Suc_numeral not_None_eq add_0 add_Suc add_0_right add_Suc_right

lemmas eval_regex = ends.simps rep.simps match_at_first_end first_end.simps finditer_from_step
  finditer_step.simps search_from_step search_step.simps re_finditer_def re_search_def seqs.simps
  alts.simps ngroups.simps

lemmas eval_patterns = str_def opt_def star_def plus_def lazy_plus_def exactly_def
  at_least_def squote_def ws_def quote_opt_def sep_opt_def labelled_def alnum_def not_quote_space_def
  hex_def digit_def db_url_def key_block_def jwt_part_def token20_def token20dot_def
  pat_API_KEY_def pat_ACCESS_TOKEN_def pat_BEARER_TOKEN_def pat_OPENAI_API_KEY_def
  pat_GOOGLE_API_KEY_def pat_UUID_TOKEN_def pat_AWS_ACCESS_KEY_def pat_AWS_SECRET_def
  pat_PASSWORD_def pat_MYSQL_PASSWORD_def pat_POSTGRES_PASSWORD_def pat_MONGODB_PASSWORD_def
  pat_DB_PASSWORD_def pat_PRIVATE_KEY_def pat_SSH_PRIVATE_KEY_def pat_CLIENT_SECRET_def
  pat_CLIENT_ID_def pat_SECRET_KEY_def pat_AUTH_TOKEN_def pat_CREDIT_CARD_def pat_JWT_TOKEN_def
  SENSITIVE_PATTERNS_def WHITELIST_PATTERNS_def

lemmas eval_detect = is_whitelisted_def candidate_def check_match_def detect_pattern_def
  detect_category_def detect_secrets_def collect.simps

lemmas eval_redact = sort_longest_first_def insert_by_len.simps replace_by_step replace_step.simps
  stats_get_def stats_add_def stats_set.simps re_escape_def redact_loop.simps redact_text_def
  Suc_le_mono le0

lemmas eval_all = eval_chars eval_lists eval_regex eval_patterns eval_detect eval_redact

section \<open>Redaction of given texts\<close>

lemma redact_token_sk:
  "redact_text ''token: sk-ABCDEFGHIJKLMNOPQRSTUVWXYZabcdefghijklmnopqr'' =
     Inr (''token: [REDACTED_ACCESS_TOKEN]'', [(''ACCESS_TOKEN'', 1)])"
  by (simp only: eval_all cong: if_weak_cong)

lemma redact_auth_token:
  "redact_text ''auth_token: abcdefghij0123456789'' =
     Inr (''auth_token: [REDACTED_ACCESS_TOKEN]'', [(''ACCESS_TOKEN'', 1), (''AUTH_TOKEN'', 0)])"
  by (simp only: eval_all cong: if_weak_cong)

lemma redact_password_url:
  "redact_text ''password: mongodb://u:hunter2hunter2@h'' =
     Inr (''password: [REDACTED_PASSWORD]'', [(''PASSWORD'', 1), (''MONGODB_PASSWORD'', 0)])"
  by (simp only: eval_all cong: if_weak_cong)

lemma detect_auth_token:
  "detect_secrets ''auth_token: abcdefghij0123456789'' =
     Inr [(''abcdefghij0123456789'', ''ACCESS_TOKEN'', ''api_key''),
          (''abcdefghij0123456789'', ''AUTH_TOKEN'', ''env'')]"
  by (simp only: eval_all cong: if_weak_cong)

lemma detect_password_url:
  "detect_secrets ''password: mongodb://u:hunter2hunter2@h'' =
     Inr [(''mongodb://u:hunter2hunter2@h'', ''PASSWORD'', ''database''),
          (''hunter2hunter2'', ''MONGODB_PASSWORD'', ''database'')]"
  by (simp only: eval_all cong: if_weak_cong)

section \<open>Claims about the redaction of given texts\<close>

text \<open>
  C2, as the code has it: the text \<^verbatim>\<open>token: sk-ABCDEFGHIJKLMNOPQRSTUVWXYZabcdefghijklmnopqr\<close>
  has 44 characters after \<^verbatim>\<open>sk-\<close>, so the OpenAI pattern (48 characters) finds nothing in
  it; the token pattern does. The redacted text is \<^verbatim>\<open>token: [REDACTED_ACCESS_TOKEN]\<close>: it
  holds the placeholder of an access token, no longer the token, and the statistics are
  \<^verbatim>\<open>{"ACCESS_TOKEN": 1}\<close>.
\<close>

theorem redact_token_access_token:
  "redact_text ''token: sk-ABCDEFGHIJKLMNOPQRSTUVWXYZabcdefghijklmnopqr'' =
     Inr (''token: [REDACTED_ACCESS_TOKEN]'', [(''ACCESS_TOKEN'', 1)]) \<and>
   sublist ''[REDACTED_ACCESS_TOKEN]'' ''token: [REDACTED_ACCESS_TOKEN]'' \<and>
   \<not> sublist ''sk-ABCDEFGHIJKLMNOPQRSTUVWXYZabcdefghijklmnopqr'' ''token: [REDACTED_ACCESS_TOKEN]''"
proof -
  have "sublist ''[REDACTED_ACCESS_TOKEN]'' (''token: '' @ ''[REDACTED_ACCESS_TOKEN]'')"
    by (rule sublist_append_leftI)
  moreover have "\<not> sublist ''sk-ABCDEFGHIJKLMNOPQRSTUVWXYZabcdefghijklmnopqr'' ''token: [REDACTED_ACCESS_TOKEN]''"
    by (simp add: sublist_code)
  ultimately show ?thesis
    using redact_token_sk by simp
qed

text \<open>
  C2 as stated fails: the output does not hold \<^verbatim>\<open>[REDACTED_OPENAI_API_KEY]\<close>, and the
  statistics are not \<^verbatim>\<open>{"OPENAI_API_KEY": 1}\<close>.
\<close>

theorem redact_token_not_openai:
  "redact_text ''token: sk-ABCDEFGHIJKLMNOPQRSTUVWXYZabcdefghijklmnopqr'' =
     Inr (''token: [REDACTED_ACCESS_TOKEN]'', [(''ACCESS_TOKEN'', 1)]) \<and>
   \<not> sublist ''[REDACTED_OPENAI_API_KEY]'' ''token: [REDACTED_ACCESS_TOKEN]'' \<and>
   map_of [(''ACCESS_TOKEN'', 1::nat)] ''OPENAI_API_KEY'' = None"
proof -
  have "\<not> sublist ''[REDACTED_OPENAI_API_KEY]'' ''token: [REDACTED_ACCESS_TOKEN]''"
    by (simp add: sublist_code)
  then show ?thesis
    using redact_token_sk by simp
qed

text \<open>
  C10: the statistics of \<^verbatim>\<open>redact_text\<close> can hold a type label with the count 0. Two
  candidates with the same text under two labels: the second label is counted 0 times.
  A longer candidate that holds a shorter one: the shorter one is gone when its turn comes,
  and its label is entered with 0.
\<close>

theorem statistics_with_zero_count:
  "(\<exists>text s t1 t2 c1 c2 out st.
      detect_secrets text = Inr [(s, t1, c1), (s, t2, c2)] \<and> t1 \<noteq> t2 \<and>
      redact_text text = Inr (out, st) \<and> map_of st t2 = Some 0) \<and>
   (\<exists>text s1 s2 t1 t2 c1 c2 out st.
      detect_secrets text = Inr [(s1, t1, c1), (s2, t2, c2)] \<and> length s2 < length s1 \<and>
      sublist s2 s1 \<and> redact_text text = Inr (out, st) \<and> map_of st t2 = Some 0)"
proof (rule conjI)
  have "detect_secrets ''auth_token: abcdefghij0123456789'' =
          Inr [(''abcdefghij0123456789'', ''ACCESS_TOKEN'', ''api_key''),
               (''abcdefghij0123456789'', ''AUTH_TOKEN'', ''env'')] \<and>
        ''ACCESS_TOKEN'' \<noteq> ''AUTH_TOKEN'' \<and>
        redact_text ''auth_token: abcdefghij0123456789'' =
          Inr (''auth_token: [REDACTED_ACCESS_TOKEN]'', [(''ACCESS_TOKEN'', 1), (''AUTH_TOKEN'', 0)]) \<and>
        map_of [(''ACCESS_TOKEN'', 1::nat), (''AUTH_TOKEN'', 0)] ''AUTH_TOKEN'' = Some 0"
    using detect_auth_token redact_auth_token by simp
  then show "\<exists>text s t1 t2 c1 c2 out st.
      detect_secrets text = Inr [(s, t1, c1), (s, t2, c2)] \<and> t1 \<noteq> t2 \<and>
      redact_text text = Inr (out, st) \<and> map_of st t2 = Some 0"
    by blast
next
  have "sublist ''hunter2hunter2'' (''mongodb://u:'' @ ''hunter2hunter2'' @ ''@h'')"
    by (rule sublist_appendI)
  then have "detect_secrets ''password: mongodb://u:hunter2hunter2@h'' =
          Inr [(''mongodb://u:hunter2hunter2@h'', ''PASSWORD'', ''database''),
               (''hunter2hunter2'', ''MONGODB_PASSWORD'', ''database'')] \<and>
        length ''hunter2hunter2'' < length ''mongodb://u:hunter2hunter2@h'' \<and>
        sublist ''hunter2hunter2'' ''mongodb://u:hunter2hunter2@h'' \<and>
        redact_text ''password: mongodb://u:hunter2hunter2@h'' =
          Inr (''password: [REDACTED_PASSWORD]'', [(''PASSWORD'', 1), (''MONGODB_PASSWORD'', 0)]) \<and>
        map_of [(''PASSWORD'', 1::nat), (''MONGODB_PASSWORD'', 0)] ''MONGODB_PASSWORD'' = Some 0"
    using detect_password_url redact_password_url by simp
  then show "\<exists>text s1 s2 t1 t2 c1 c2 out st.
      detect_secrets text = Inr [(s1, t1, c1), (s2, t2, c2)] \<and> length s2 < length s1 \<and>
      sublist s2 s1 \<and> redact_text text = Inr (out, st) \<and> map_of st t2 = Some 0"
    by blast
qed

section \<open>Claims about the whitelist and about totality\<close>

lemma detect_api_key_and_password:
  "detect_secrets ''api_key: abcdefghijTestklmnopqrstu password: hunter2hunter2'' =
     Inr [(''hunter2hunter2'', ''PASSWORD'', ''database'')]"
  by (simp only: eval_all cong: if_weak_cong)

lemma finditer_api_key_test:
  "re_finditer True pat_API_KEY ''api_key: abcdefghijTestklmnopqrstu'' =
     [(''api_key: abcdefghijTestklmnopqrstu'', [(2, ''abcdefghijTestklmnopqrstu''), (1, ''api_key'')])]"
  by (simp only: eval_all cong: if_weak_cong)

lemma redact_api_key_test:
  "redact_text ''api_key: abcdefghijTestklmnopqrstu'' = Inr (''api_key: abcdefghijTestklmnopqrstu'', [])"
  by (simp only: eval_all cong: if_weak_cong)

lemmas eval_json = dict_get_def dict_get_default_def has_key_def dict_set.simps truthy.simps
  text_parts.simps join_lines.simps flatten_blocks_def newline_def message_field_def
  set_message_content_def extract_content_def build_message_def Message_def opt_str.simps
  validate_content_def redact_message_content.simps json.case json.inject json.distinct
  error.distinct

lemma build_api_key_test:
  "build_message True
     [(''type'', JStr ''user''),
      (''message'', JObj [(''role'', JStr ''user''), (''content'', JStr ''api_key: abcdefghijTestklmnopqrstu'')])] =
   Inr (\<lparr>m_type = Some ''user'', m_role = Some ''user'',
         m_content = Some ''api_key: abcdefghijTestklmnopqrstu'', m_timestamp = None,
         raw_data = [(''type'', JStr ''user''),
                     (''message'', JObj [(''role'', JStr ''user''),
                                         (''content'', JStr ''api_key: abcdefghijTestklmnopqrstu'')])]\<rparr>, [])"
  by (simp add: eval_json redact_api_key_test)

text \<open>
  C9: a candidate that holds a whitelist word anywhere, in any letter case, is not
  among the detected secrets of any text. The value \<^verbatim>\<open>abcdefghijTestklmnopqrstu\<close>
  (25 characters, \<^verbatim>\<open>Test\<close> in the middle) is the candidate of the API key pattern in
  \<^verbatim>\<open>api_key: abcdefghijTestklmnopqrstu\<close>; the text is left as it is, and so is the
  record that holds it.
\<close>

theorem whitelisted_candidate_not_redacted:
  "(\<forall>w s text secrets ty cat.
      w \<in> set [''example.com'', ''localhost'', ''127.0.0.1'', ''test'', ''demo'', ''sample'',
                ''placeholder'', ''***'', ''xxx''] \<and>
      sublist (map lower w) (map lower s) \<and> detect_secrets text = Inr secrets \<longrightarrow>
      is_whitelisted s \<and> (s, ty, cat) \<notin> set secrets) \<and>
   re_finditer True pat_API_KEY ''api_key: abcdefghijTestklmnopqrstu'' =
     [(''api_key: abcdefghijTestklmnopqrstu'', [(2, ''abcdefghijTestklmnopqrstu''), (1, ''api_key'')])] \<and>
   candidate pat_API_KEY
     (''api_key: abcdefghijTestklmnopqrstu'', [(2, ''abcdefghijTestklmnopqrstu''), (1, ''api_key'')]) =
     Some ''abcdefghijTestklmnopqrstu'' \<and>
   20 \<le> length ''abcdefghijTestklmnopqrstu'' \<and>
   ''abcdefghijTestklmnopqrstu'' = ''abcdefghij'' @ ''Test'' @ ''klmnopqrstu'' \<and>
   redact_text ''api_key: abcdefghijTestklmnopqrstu'' = Inr (''api_key: abcdefghijTestklmnopqrstu'', []) \<and>
   build_message True
     [(''type'', JStr ''user''),
      (''message'', JObj [(''role'', JStr ''user''), (''content'', JStr ''api_key: abcdefghijTestklmnopqrstu'')])] =
   Inr (\<lparr>m_type = Some ''user'', m_role = Some ''user'',
         m_content = Some ''api_key: abcdefghijTestklmnopqrstu'', m_timestamp = None,
         raw_data = [(''type'', JStr ''user''),
                     (''message'', JObj [(''role'', JStr ''user''),
                                         (''content'', JStr ''api_key: abcdefghijTestklmnopqrstu'')])]\<rparr>, [])"
proof -
  have general: "is_whitelisted s \<and> (s, ty, cat) \<notin> set secrets"
    if "w \<in> set [''example.com'', ''localhost'', ''127.0.0.1'', ''test'', ''demo'', ''sample'',
                    ''placeholder'', ''***'', ''xxx'']"
      and "sublist (map lower w) (map lower s)" and "detect_secrets input = Inr secrets"
    for w s input secrets ty cat
  proof -
    from that(1,2) have wl: "is_whitelisted s"
      by (rule whitelisted_substring)
    have "(s, ty, cat) \<notin> set secrets"
    proof
      assume "(s, ty, cat) \<in> set secrets"
      from detected_not_whitelisted [OF that(3) this] wl show False
        by simp
    qed
    with wl show ?thesis by simp
  qed
  then have all: "\<forall>w s text secrets ty cat.
      w \<in> set [''example.com'', ''localhost'', ''127.0.0.1'', ''test'', ''demo'', ''sample'',
                ''placeholder'', ''***'', ''xxx''] \<and>
      sublist (map lower w) (map lower s) \<and> detect_secrets text = Inr secrets \<longrightarrow>
      is_whitelisted s \<and> (s, ty, cat) \<notin> set secrets"
    by blast
  have cand: "candidate pat_API_KEY
     (''api_key: abcdefghijTestklmnopqrstu'', [(2, ''abcdefghijTestklmnopqrstu''), (1, ''api_key'')]) =
     Some ''abcdefghijTestklmnopqrstu''"
    by (simp only: eval_all cong: if_weak_cong)
  show ?thesis
    by (intro conjI all cand finditer_api_key_test redact_api_key_test build_api_key_test) simp_all
qed

theorem whitelisted_candidate_not_redacted_witness:
  "''test'' \<in> set [''example.com'', ''localhost'', ''127.0.0.1'', ''test'', ''demo'', ''sample'',
                     ''placeholder'', ''***'', ''xxx''] \<and>
   sublist (map lower ''test'') (map lower ''abcdefghijTestklmnopqrstu'') \<and>
   detect_secrets ''api_key: abcdefghijTestklmnopqrstu password: hunter2hunter2'' =
     Inr [(''hunter2hunter2'', ''PASSWORD'', ''database'')] \<and>
   is_whitelisted ''abcdefghijTestklmnopqrstu'' \<and>
   (''abcdefghijTestklmnopqrstu'', ''API_KEY'', ''api_key'') \<notin>
     set [(''hunter2hunter2'', ''PASSWORD'', ''database'')]"
proof -
  have sub: "sublist (map lower ''test'') (map lower ''abcdefghijTestklmnopqrstu'')"
    by (simp add: lower_table sublist_code)
  have mem: "''test'' \<in> set [''example.com'', ''localhost'', ''127.0.0.1'', ''test'', ''demo'', ''sample'',
                     ''placeholder'', ''***'', ''xxx'']"
    by simp
  from whitelisted_candidate_not_redacted mem sub detect_api_key_and_password
  have "is_whitelisted ''abcdefghijTestklmnopqrstu'' \<and>
     (''abcdefghijTestklmnopqrstu'', ''API_KEY'', ''api_key'') \<notin>
       set [(''hunter2hunter2'', ''PASSWORD'', ''database'')]"
    by blast
  with mem sub detect_api_key_and_password show ?thesis
    by blast
qed

text \<open>
  C7: \<^verbatim>\<open>redact_message_content\<close> returns for every value, and a value that is neither a
  string nor a list comes back as it is, with empty statistics.
\<close>

theorem redact_message_content_never_raises:
  "(\<exists>r st. redact_message_content c = Inr (r, st)) \<and>
   ((\<forall>s. c \<noteq> JStr s) \<and> (\<forall>items. c \<noteq> JArr items) \<longrightarrow> redact_message_content c = Inr (c, []))"
proof
  show "\<exists>r st. redact_message_content c = Inr (r, st)"
    by (rule redact_message_content_total)
  show "(\<forall>s. c \<noteq> JStr s) \<and> (\<forall>items. c \<noteq> JArr items) \<longrightarrow> redact_message_content c = Inr (c, [])"
    by (cases c) simp_all
qed

theorem redact_message_content_never_raises_witness:
  "(\<forall>s. JObj [(''a'', JNum 1)] \<noteq> JStr s) \<and> (\<forall>items. JObj [(''a'', JNum 1)] \<noteq> JArr items) \<and>
   redact_message_content (JObj [(''a'', JNum 1)]) = Inr (JObj [(''a'', JNum 1)], []) \<and>
   (\<exists>r st. redact_message_content (JArr [JNum 1, JObj [(''type'', JStr ''image'')]]) = Inr (r, st))"
  using redact_message_content_never_raises [of "JObj [(''a'', JNum 1)]"]
    redact_message_content_never_raises [of "JArr [JNum 1, JObj [(''type'', JStr ''image'')]]"]
  by simp

section \<open>What is stored for a message\<close>

lemma map_of_dict_set: "map_of (dict_set d k v) k' = (if k' = k then Some v else map_of d k')"
  by (induction d k v rule: dict_set.induct) auto

lemma build_messages_nth:
  "build_messages e raws rs = (Inr ms, rs') \<Longrightarrow>
     length ms = length raws \<and> (\<forall>i < length raws. \<exists>st. build_message e (raws ! i) = Inr (ms ! i, st))"
proof (induction raws arbitrary: ms rs)
  case Nil
  then show ?case by simp
next
  case (Cons raw raws)
  from Cons.prems obtain m st ms' where b: "build_message e raw = Inr (m, st)"
    and rest: "build_messages e raws (stats_merge rs st) = (Inr ms', rs')" and ms: "ms = m # ms'"
    by (auto split: sum.splits prod.splits)
  from Cons.IH [OF rest] have len: "length ms' = length raws"
    and nth: "\<forall>i < length raws. \<exists>st. build_message e (raws ! i) = Inr (ms' ! i, st)"
    by simp_all
  show ?case
  proof (intro conjI allI impI)
    show "length ms = length (raw # raws)"
      using len ms by simp
    fix i assume "i < length (raw # raws)"
    then show "\<exists>st. build_message e ((raw # raws) ! i) = Inr (ms ! i, st)"
      using b nth ms by (cases i) auto
  qed
qed

lemma scan_session_messages:
  "scan_session e pid pp f rs = (Inr s, rs') \<Longrightarrow>
     s_id s = stem f \<and> s_project_id s = pid \<and>
     build_messages e (parse_jsonl_messages (lines f)) rs = (Inr (messages s), rs')"
  by (auto simp: scan_session_def Let_def split: prod.splits sum.splits)

lemma length_message_docs: "length (message_docs s) = length (messages s)"
  by (simp add: message_docs_def)

lemma nth_message_docs:
  "i < length (messages s) \<Longrightarrow>
     message_docs s ! i = \<lparr>doc_id = message_id (s_id s) i, doc_session_id = s_id s,
                             doc_project_id = s_project_id s, message_index = i,
                             doc_message = messages s ! i\<rparr>"
  by (simp add: message_docs_def nth_enumerate_eq)

lemma message_docs_mem:
  "doc \<in> set (message_docs s) \<Longrightarrow>
     message_index doc < length (messages s) \<and> doc_message doc = messages s ! message_index doc \<and>
     doc_id doc = message_id (s_id s) (message_index doc)"
proof -
  assume "doc \<in> set (message_docs s)"
  then obtain i where "i < length (message_docs s)" "doc = message_docs s ! i"
    by (auto simp: in_set_conv_nth)
  then show ?thesis
    by (simp add: length_message_docs nth_message_docs)
qed

text \<open>What \<^verbatim>\<open>scan_sessions\<close> does with a record whose extracted content is a text that is not empty.\<close>

lemma build_message_redacts:
  assumes "extract_content raw_msg = Inr (JStr s)" "s \<noteq> []" "build_message True raw_msg = Inr (m, st)"
  shows "\<exists>r. redact_text s = Inr (r, st) \<and> m_content m = Some r \<and>
              message_field (raw_data m) ''content'' = Inr (JStr r)"
proof -
  obtain r st0 where r: "redact_text s = Inr (r, st0)"
    using redact_text_total by blast
  from assms(1) obtain md where md: "map_of raw_msg ''message'' = Some (JObj md)"
    by (auto simp: extract_content_def message_field_def has_key_def dict_get_def
        split: if_splits option.splits json.splits sum.splits)
  let ?raw = "set_message_content raw_msg (JStr r)"
  from md have raw: "?raw = dict_set raw_msg ''message'' (JObj (dict_set md ''content'' (JStr r)))"
    by (simp add: set_message_content_def)
  then have field: "message_field ?raw ''content'' = Inr (JStr r)"
    by (simp add: message_field_def has_key_def dict_get_def map_of_dict_set)
  from assms r have "(case message_field ?raw ''role'' of Inl e \<Rightarrow> Inl e | Inr role \<Rightarrow>
        (case Message (dict_get ?raw ''type'') role (JStr r) (dict_get ?raw ''timestamp'') ?raw of
           Inl e \<Rightarrow> Inl e | Inr m \<Rightarrow> Inr (m, st0))) = Inr (m, st)"
    by (simp add: build_message_def)
  then have "st = st0 \<and> m_content m = Some r \<and> raw_data m = ?raw"
    by (auto simp: Message_def validate_content_def split: sum.splits)
  with r field show ?thesis by simp
qed

text \<open>Every field of a record but \<^verbatim>\<open>message\<close> is stored as it was read.\<close>

lemma build_message_other_fields:
  assumes "build_message e raw_msg = Inr (m, st)" "k \<noteq> ''message''"
  shows "map_of (raw_data m) k = map_of raw_msg k"
proof -
  have set_other: "map_of (set_message_content raw_msg c) k = map_of raw_msg k" for c
    using assms(2) by (auto simp: set_message_content_def map_of_dict_set split: option.splits json.splits)
  from assms(1) have "raw_data m = raw_msg \<or> (\<exists>c. raw_data m = set_message_content raw_msg c)"
    by (auto simp: build_message_def Message_def split: sum.splits if_splits prod.splits)
  with set_other show ?thesis by auto
qed

lemma detect_password:
  "detect_secrets ''password: hunter2hunter2'' = Inr [(''hunter2hunter2'', ''PASSWORD'', ''database'')]"
  by (simp only: eval_all cong: if_weak_cong)

lemma redact_password:
  "redact_text ''password: hunter2hunter2'' = Inr (''password: [REDACTED_PASSWORD]'', [(''PASSWORD'', 1)])"
  by (simp only: eval_all cong: if_weak_cong)

lemma redact_hello: "redact_text ''hello'' = Inr (''hello'', [])"
  by (simp only: eval_all cong: if_weak_cong)

lemmas eval_session = eval_json scan_session_def parse_jsonl_messages_def first_user_line_def
  skip_or_return_def caveat_marker_def command_marker_def sublist_code stats_merge_def
  stats_add_def stats_get_def

text \<open>
  C1, as the code has it: every stored message document comes from the record at its
  index; when the extracted content of the record is a text that is not empty, the
  stored content and the \<^verbatim>\<open>content\<close> of the \<^verbatim>\<open>message\<close> in the stored raw record are both
  the output of \<^verbatim>\<open>redact_text\<close> on it; every other field of the raw record is stored as
  it was read.
\<close>

theorem stored_content_is_redacted:
  assumes "scan_session True pid pp f rs = (Inr s, rs')" and "doc \<in> set (message_docs s)"
  shows "\<exists>raw_msg st.
           message_index doc < length (parse_jsonl_messages (lines f)) \<and>
           raw_msg = parse_jsonl_messages (lines f) ! message_index doc \<and>
           build_message True raw_msg = Inr (doc_message doc, st) \<and>
           (\<forall>text. extract_content raw_msg = Inr (JStr text) \<and> text \<noteq> [] \<longrightarrow>
              (\<exists>r. redact_text text = Inr (r, st) \<and> m_content (doc_message doc) = Some r \<and>
                   message_field (raw_data (doc_message doc)) ''content'' = Inr (JStr r))) \<and>
           (\<forall>k. k \<noteq> ''message'' \<longrightarrow> map_of (raw_data (doc_message doc)) k = map_of raw_msg k)"
proof -
  let ?raws = "parse_jsonl_messages (lines f)"
  let ?i = "message_index doc"
  from scan_session_messages [OF assms(1)]
  have b: "build_messages True ?raws rs = (Inr (messages s), rs')"
    by simp
  from message_docs_mem [OF assms(2)] have i: "?i < length (messages s)"
    and m: "doc_message doc = messages s ! ?i"
    by simp_all
  from build_messages_nth [OF b] i obtain st where len: "?i < length ?raws"
    and bm: "build_message True (?raws ! ?i) = Inr (doc_message doc, st)"
    using m by auto
  have "\<exists>r. redact_text t = Inr (r, st) \<and> m_content (doc_message doc) = Some r \<and>
          message_field (raw_data (doc_message doc)) ''content'' = Inr (JStr r)"
    if "extract_content (?raws ! ?i) = Inr (JStr t)" "t \<noteq> []" for t
    using that bm by (rule build_message_redacts)
  moreover have "map_of (raw_data (doc_message doc)) k = map_of (?raws ! ?i) k" if "k \<noteq> ''message''" for k
    using bm that by (rule build_message_other_fields)
  ultimately show ?thesis
    using len bm by blast
qed

lemma scan_password_session:
  "scan_session True ''p'' ''/x''
     \<lparr>stem = ''s1'',
      lines = [Some (JObj [(''type'', JStr ''user''),
                           (''message'', JObj [(''role'', JStr ''user''),
                                               (''content'', JStr ''password: hunter2hunter2'')])])],
      todo = JNull\<rparr> [] =
   (Inr \<lparr>s_id = ''s1'', s_project_id = ''p'', s_project_path = ''/x'',
         messages = [\<lparr>m_type = Some ''user'', m_role = Some ''user'',
                      m_content = Some ''password: [REDACTED_PASSWORD]'', m_timestamp = None,
                      raw_data = [(''type'', JStr ''user''),
                                  (''message'', JObj [(''role'', JStr ''user''),
                                                      (''content'', JStr ''password: [REDACTED_PASSWORD]'')]),
                                  (''_line_number'', JNum 1)]\<rparr>],
         first_message = Some ''password: hunter2hunter2'', message_timestamp = None,
         todo_data = JNull\<rparr>,
    [(''PASSWORD'', 1)])"
  by (simp add: eval_session redact_password)

theorem stored_content_is_redacted_witness:
  "scan_session True ''p'' ''/x''
     \<lparr>stem = ''s1'',
      lines = [Some (JObj [(''type'', JStr ''user''),
                           (''message'', JObj [(''role'', JStr ''user''),
                                               (''content'', JStr ''password: hunter2hunter2'')])])],
      todo = JNull\<rparr> [] =
   (Inr \<lparr>s_id = ''s1'', s_project_id = ''p'', s_project_path = ''/x'',
         messages = [\<lparr>m_type = Some ''user'', m_role = Some ''user'',
                      m_content = Some ''password: [REDACTED_PASSWORD]'', m_timestamp = None,
                      raw_data = [(''type'', JStr ''user''),
                                  (''message'', JObj [(''role'', JStr ''user''),
                                                      (''content'', JStr ''password: [REDACTED_PASSWORD]'')]),
                                  (''_line_number'', JNum 1)]\<rparr>],
         first_message = Some ''password: hunter2hunter2'', message_timestamp = None,
         todo_data = JNull\<rparr>,
    [(''PASSWORD'', 1)]) \<and>
   (\<exists>doc raw_msg st.
      doc \<in> set (message_docs
        \<lparr>s_id = ''s1'', s_project_id = ''p'', s_project_path = ''/x'',
         messages = [\<lparr>m_type = Some ''user'', m_role = Some ''user'',
                      m_content = Some ''password: [REDACTED_PASSWORD]'', m_timestamp = None,
                      raw_data = [(''type'', JStr ''user''),
                                  (''message'', JObj [(''role'', JStr ''user''),
                                                      (''content'', JStr ''password: [REDACTED_PASSWORD]'')]),
                                  (''_line_number'', JNum 1)]\<rparr>],
         first_message = Some ''password: hunter2hunter2'', message_timestamp = None,
         todo_data = JNull\<rparr>) \<and>
      build_message True raw_msg = Inr (doc_message doc, st) \<and>
      extract_content raw_msg = Inr (JStr ''password: hunter2hunter2'') \<and>
      redact_text ''password: hunter2hunter2'' = Inr (''password: [REDACTED_PASSWORD]'', st) \<and>
      m_content (doc_message doc) = Some ''password: [REDACTED_PASSWORD]'' \<and>
      message_field (raw_data (doc_message doc)) ''content'' = Inr (JStr ''password: [REDACTED_PASSWORD]''))"
proof -
  let ?f = "\<lparr>stem = ''s1'',
      lines = [Some (JObj [(''type'', JStr ''user''),
                           (''message'', JObj [(''role'', JStr ''user''),
                                               (''content'', JStr ''password: hunter2hunter2'')])])],
      todo = JNull\<rparr>"
  let ?s = "\<lparr>s_id = ''s1'', s_project_id = ''p'', s_project_path = ''/x'',
         messages = [\<lparr>m_type = Some ''user'', m_role = Some ''user'',
                      m_content = Some ''password: [REDACTED_PASSWORD]'', m_timestamp = None,
                      raw_data = [(''type'', JStr ''user''),
                                  (''message'', JObj [(''role'', JStr ''user''),
                                                      (''content'', JStr ''password: [REDACTED_PASSWORD]'')]),
                                  (''_line_number'', JNum 1)]\<rparr>],
         first_message = Some ''password: hunter2hunter2'', message_timestamp = None,
         todo_data = JNull\<rparr>"
  let ?doc = "message_docs ?s ! 0"
  have mem: "?doc \<in> set (message_docs ?s)"
    by (rule nth_mem) (simp add: length_message_docs)
  have idx: "message_index ?doc = 0"
    by (simp add: nth_message_docs)
  from stored_content_is_redacted [OF scan_password_session mem]
  obtain raw_msg st where raw: "raw_msg = parse_jsonl_messages (lines ?f) ! message_index ?doc"
    and bm: "build_message True raw_msg = Inr (doc_message ?doc, st)"
    and red: "\<forall>text. extract_content raw_msg = Inr (JStr text) \<and> text \<noteq> [] \<longrightarrow>
              (\<exists>r. redact_text text = Inr (r, st) \<and> m_content (doc_message ?doc) = Some r \<and>
                   message_field (raw_data (doc_message ?doc)) ''content'' = Inr (JStr r))"
    by blast
  from raw idx have ec: "extract_content raw_msg = Inr (JStr ''password: hunter2hunter2'')"
    by (simp add: eval_session)
  with red obtain r where "redact_text ''password: hunter2hunter2'' = Inr (r, st)"
    "m_content (doc_message ?doc) = Some r"
    "message_field (raw_data (doc_message ?doc)) ''content'' = Inr (JStr r)"
    by fastforce
  with redact_password have "redact_text ''password: hunter2hunter2'' = Inr (''password: [REDACTED_PASSWORD]'', st)"
    "m_content (doc_message ?doc) = Some ''password: [REDACTED_PASSWORD]''"
    "message_field (raw_data (doc_message ?doc)) ''content'' = Inr (JStr ''password: [REDACTED_PASSWORD]'')"
    by simp_all
  with mem bm ec scan_password_session show ?thesis
    by blast
qed

text \<open>
  C1 as stated fails. A record with the secret in a field beside \<^verbatim>\<open>message\<close>: the field
  is stored as it was read, and \<^verbatim>\<open>detect_secrets\<close> finds the secret in it. A record
  whose content is a list with no text block: its extracted content is empty, nothing is
  redacted, and the block with the secret is stored as it was read.
\<close>

theorem stored_raw_record_not_redacted:
  "build_message True
     [(''type'', JStr ''user''),
      (''message'', JObj [(''role'', JStr ''user''), (''content'', JStr ''hello'')]),
      (''toolUseResult'', JStr ''password: hunter2hunter2'')] =
   Inr (\<lparr>m_type = Some ''user'', m_role = Some ''user'', m_content = Some ''hello'',
         m_timestamp = None,
         raw_data = [(''type'', JStr ''user''),
                     (''message'', JObj [(''role'', JStr ''user''), (''content'', JStr ''hello'')]),
                     (''toolUseResult'', JStr ''password: hunter2hunter2'')]\<rparr>, []) \<and>
   build_message True
     [(''type'', JStr ''user''),
      (''message'', JObj [(''role'', JStr ''user''),
                          (''content'', JArr [JObj [(''type'', JStr ''tool_result''),
                                                    (''content'', JStr ''password: hunter2hunter2'')]])])] =
   Inr (\<lparr>m_type = Some ''user'', m_role = Some ''user'', m_content = Some [],
         m_timestamp = None,
         raw_data = [(''type'', JStr ''user''),
                     (''message'', JObj [(''role'', JStr ''user''),
                                         (''content'', JArr [JObj [(''type'', JStr ''tool_result''),
                                                                   (''content'', JStr ''password: hunter2hunter2'')]])])]\<rparr>,
        []) \<and>
   detect_secrets ''password: hunter2hunter2'' = Inr [(''hunter2hunter2'', ''PASSWORD'', ''database'')]"
  by (simp add: eval_json redact_hello detect_password)

section \<open>The first user message\<close>

lemma first_user_line_qualifying:
  assumes "record_line entry"
  shows "first_user_line entry = (case qualifying entry of None \<Rightarrow> Continue | Some r \<Rightarrow> Return r)"
proof -
  from assms obtain d where d: "entry = JObj d"
    by (auto simp: record_line_def split: json.splits)
  show ?thesis
  proof (cases "map_of d ''message''")
    case None
    with d show ?thesis
      by (simp add: first_user_line_def qualifying_def user_content_def has_key_def)
  next
    case (Some v)
    show ?thesis
    proof (cases "\<exists>m. v = JObj m \<and> map_of m ''role'' = Some (JStr ''user'')")
      case False
      with d Some show ?thesis
        by (auto simp: first_user_line_def qualifying_def user_content_def has_key_def dict_get_def
            split: json.splits option.splits)
    next
      case True
      then obtain m where m: "v = JObj m" "map_of m ''role'' = Some (JStr ''user'')"
        by blast
      with assms d Some obtain s where s: "user_content entry = Some s"
        by (auto simp: record_line_def)
      let ?ts = "dict_get d ''timestamp''"
      have skip: "skip_or_return (JStr s) ?ts = (if skipped s then Continue else Return (JStr s, ?ts))"
        by (cases "sublist caveat_marker s") (simp_all add: skip_or_return_def skipped_def)
      from s d Some m consider (plain) "dict_get_default m ''content'' (JStr []) = JStr s"
        | (blocks) bs where "dict_get_default m ''content'' (JStr []) = JArr bs" "flatten_blocks bs = Inr s"
        by (auto simp: user_content_def split: json.splits sum.splits)
      then have "first_user_line entry = skip_or_return (JStr s) ?ts"
      proof cases
        case plain
        with d Some m show ?thesis
          by (simp add: first_user_line_def has_key_def dict_get_def)
      next
        case blocks
        with d Some m show ?thesis
          by (simp add: first_user_line_def has_key_def dict_get_def)
      qed
      with skip s d show ?thesis
        by (simp add: qualifying_def)
    qed
  qed
qed

text \<open>
  C4, as the code has it: on a transcript of record lines, the first user message is the
  content and timestamp of the first user record that is not skipped, and a record is
  skipped when its content holds the caveat marker anywhere or begins with the command
  marker.
\<close>

theorem first_user_message_is_first_qualifying:
  assumes "\<forall>l \<in> set ls. \<forall>entry. l = Some entry \<longrightarrow> record_line entry"
  shows "extract_first_user_message ls = first_qualifying ls"
  using assms
proof (induction ls)
  case Nil
  then show ?case by (simp add: first_qualifying_def List.map_filter_simps)
next
  case (Cons l ls)
  then have IH: "extract_first_user_message ls = first_qualifying ls"
    by simp
  show ?case
  proof (cases l)
    case None
    with IH show ?thesis by (simp add: first_qualifying_def List.map_filter_simps)
  next
    case (Some entry)
    with Cons.prems have "record_line entry" by simp
    from first_user_line_qualifying [OF this] Some IH show ?thesis
      by (cases "qualifying entry") (simp_all add: first_qualifying_def List.map_filter_simps)
  qed
qed

lemmas eval_first = first_user_line_def skip_or_return_def caveat_marker_def command_marker_def
  sublist_code dict_get_def dict_get_default_def has_key_def flatten_blocks_def newline_def

lemma first_user_message_skip_rule:
  "extract_first_user_message
     [Some (JObj [(''message'', JObj [(''role'', JStr ''user''),
                                      (''content'', JStr ''Caveat: The messages below were generated by the user'')]),
                  (''timestamp'', JStr ''t1'')]),
      None,
      Some (JObj [(''message'', JObj [(''role'', JStr ''user''),
                                      (''content'', JStr ''<command-name>clear</command-name>'')]),
                  (''timestamp'', JStr ''t2'')]),
      Some (JObj [(''message'', JObj [(''role'', JStr ''user''),
                                      (''content'', JArr [JObj [(''type'', JStr ''text''), (''text'', JStr ''fix the bug'')]])]),
                  (''timestamp'', JStr ''t3'')])] =
   (JStr ''fix the bug'', JStr ''t3'')"
  by (simp add: eval_first)

theorem first_user_message_is_first_qualifying_witness:
  "extract_first_user_message
     [Some (JObj [(''message'', JObj [(''role'', JStr ''user''),
                                      (''content'', JStr ''Caveat: The messages below were generated by the user'')]),
                  (''timestamp'', JStr ''t1'')]),
      None,
      Some (JObj [(''message'', JObj [(''role'', JStr ''user''),
                                      (''content'', JStr ''<command-name>clear</command-name>'')]),
                  (''timestamp'', JStr ''t2'')]),
      Some (JObj [(''message'', JObj [(''role'', JStr ''user''),
                                      (''content'', JArr [JObj [(''type'', JStr ''text''), (''text'', JStr ''fix the bug'')]])]),
                  (''timestamp'', JStr ''t3'')])] =
   first_qualifying
     [Some (JObj [(''message'', JObj [(''role'', JStr ''user''),
                                      (''content'', JStr ''Caveat: The messages below were generated by the user'')]),
                  (''timestamp'', JStr ''t1'')]),
      None,
      Some (JObj [(''message'', JObj [(''role'', JStr ''user''),
                                      (''content'', JStr ''<command-name>clear</command-name>'')]),
                  (''timestamp'', JStr ''t2'')]),
      Some (JObj [(''message'', JObj [(''role'', JStr ''user''),
                                      (''content'', JArr [JObj [(''type'', JStr ''text''), (''text'', JStr ''fix the bug'')]])]),
                  (''timestamp'', JStr ''t3'')])] \<and>
   first_qualifying
     [Some (JObj [(''message'', JObj [(''role'', JStr ''user''),
                                      (''content'', JStr ''Caveat: The messages below were generated by the user'')]),
                  (''timestamp'', JStr ''t1'')]),
      None,
      Some (JObj [(''message'', JObj [(''role'', JStr ''user''),
                                      (''content'', JStr ''<command-name>clear</command-name>'')]),
                  (''timestamp'', JStr ''t2'')]),
      Some (JObj [(''message'', JObj [(''role'', JStr ''user''),
                                      (''content'', JArr [JObj [(''type'', JStr ''text''), (''text'', JStr ''fix the bug'')]])]),
                  (''timestamp'', JStr ''t3'')])] =
   (JStr ''fix the bug'', JStr ''t3'')"
proof -
  let ?ls = "[Some (JObj [(''message'', JObj [(''role'', JStr ''user''),
                                      (''content'', JStr ''Caveat: The messages below were generated by the user'')]),
                  (''timestamp'', JStr ''t1'')]),
      None,
      Some (JObj [(''message'', JObj [(''role'', JStr ''user''),
                                      (''content'', JStr ''<command-name>clear</command-name>'')]),
                  (''timestamp'', JStr ''t2'')]),
      Some (JObj [(''message'', JObj [(''role'', JStr ''user''),
                                      (''content'', JArr [JObj [(''type'', JStr ''text''), (''text'', JStr ''fix the bug'')]])]),
                  (''timestamp'', JStr ''t3'')])]"
  have "\<forall>l \<in> set ?ls. \<forall>entry. l = Some entry \<longrightarrow> record_line entry"
    by (simp add: record_line_def user_content_def dict_get_default_def flatten_blocks_def dict_get_def)
  from first_user_message_is_first_qualifying [OF this] first_user_message_skip_rule
  show ?thesis
    by simp
qed

text \<open>
  C4 as stated fails: a user record whose content holds the caveat marker, not at its
  beginning, is skipped.
\<close>

theorem caveat_inside_content_is_skipped:
  "extract_first_user_message
     [Some (JObj [(''message'', JObj [(''role'', JStr ''user''),
                                      (''content'', JStr ''Note. Caveat: The messages below were generated by the user'')]),
                  (''timestamp'', JStr ''t1'')]),
      Some (JObj [(''message'', JObj [(''role'', JStr ''user''), (''content'', JStr ''hello'')]),
                  (''timestamp'', JStr ''t2'')])] =
   (JStr ''hello'', JStr ''t2'') \<and>
   \<not> prefix caveat_marker ''Note. Caveat: The messages below were generated by the user'' \<and>
   \<not> prefix command_marker ''Note. Caveat: The messages below were generated by the user''"
  by (simp add: eval_first)

section \<open>The records of a transcript and the keys of their messages\<close>

lemma records_from_Cons:
  "records_from n (l # ls) =
     (case l of Some (JObj d) \<Rightarrow> [(n, d)] | other \<Rightarrow> []) @ records_from (Suc n) ls"
  by (simp add: records_from_def List.map_filter_simps split: option.splits json.splits)

lemma parse_loop_records:
  "\<forall>l \<in> set ls. l = None \<or> (\<exists>d. l = Some (JObj d)) \<Longrightarrow>
     parse_loop n ls acc = acc @ map numbered (records_from n ls)"
proof (induction ls arbitrary: n acc)
  case Nil
  then show ?case by (simp add: records_from_def List.map_filter_simps)
next
  case (Cons l ls)
  then have IH: "\<And>n acc. parse_loop n ls acc = acc @ map numbered (records_from n ls)"
    by simp
  from Cons.prems consider "l = None" | d where "l = Some (JObj d)"
    by auto
  then show ?case
    by cases (simp_all add: IH records_from_Cons numbered_def)
qed

lemma length_records_from:
  "\<forall>l \<in> set ls. l = None \<or> (\<exists>d. l = Some (JObj d)) \<Longrightarrow>
     length (records_from n ls) = length ls - length (filter (\<lambda>l. l = None) ls)"
proof (induction ls arbitrary: n)
  case Nil
  then show ?case by (simp add: records_from_def List.map_filter_simps)
next
  case (Cons l ls)
  then have IH: "\<And>n. length (records_from n ls) = length ls - length (filter (\<lambda>l. l = None) ls)"
    by simp
  have le: "length (filter (\<lambda>l. l = None) ls) \<le> length ls"
    by simp
  from Cons.prems consider "l = None" | d where "l = Some (JObj d)"
    by auto
  then show ?case
    using le by cases (simp_all add: IH records_from_Cons Suc_diff_le)
qed

lemma message_docs_ids:
  "map doc_id (message_docs s) = map (message_id (s_id s)) [0..<length (messages s)] \<and>
   map message_index (message_docs s) = [0..<length (messages s)]"
proof
  show "map doc_id (message_docs s) = map (message_id (s_id s)) [0..<length (messages s)]"
    by (rule nth_equalityI) (simp_all add: message_docs_def nth_enumerate_eq)
  show "map message_index (message_docs s) = [0..<length (messages s)]"
    by (rule nth_equalityI) (simp_all add: message_docs_def nth_enumerate_eq)
qed

text \<open>
  C5: on a transcript whose decoded lines are records, \<^verbatim>\<open>parse_jsonl_messages\<close> returns
  the N - K records that decode, each with its line number, in file order; the message
  documents of the session have the indices 0..N-K-1 and the keys
  \<^verbatim>\<open>{session_id}_{index}\<close> in that order, the document at index \<open>i\<close> holding the \<open>i\<close>-th
  record. The keys are a function of the file name and the number of records.
\<close>

theorem message_keys_stable:
  assumes "\<forall>l \<in> set (lines f). l = None \<or> (\<exists>d. l = Some (JObj d))"
    and "scan_session e pid pp f rs = (Inr s, rs')"
  shows "parse_jsonl_messages (lines f) = map numbered (records_from 1 (lines f)) \<and>
         length (records_from 1 (lines f)) =
           length (lines f) - length (filter (\<lambda>l. l = None) (lines f)) \<and>
         map doc_id (message_docs s) =
           map (message_id (stem f)) [0..<length (lines f) - length (filter (\<lambda>l. l = None) (lines f))] \<and>
         map message_index (message_docs s) =
           [0..<length (lines f) - length (filter (\<lambda>l. l = None) (lines f))] \<and>
         (\<forall>i < length (records_from 1 (lines f)). \<forall>k. k \<noteq> ''message'' \<longrightarrow>
            map_of (raw_data (doc_message (message_docs s ! i))) k =
            map_of (numbered (records_from 1 (lines f) ! i)) k)"
proof -
  let ?recs = "records_from 1 (lines f)"
  let ?n = "length (lines f) - length (filter (\<lambda>l. l = None) (lines f))"
  from parse_loop_records [OF assms(1), of 1 "[]"]
  have parse: "parse_jsonl_messages (lines f) = map numbered ?recs"
    by (simp add: parse_jsonl_messages_def)
  from length_records_from [OF assms(1)] have len: "length ?recs = ?n" .
  from scan_session_messages [OF assms(2)] have sid: "s_id s = stem f"
    and b: "build_messages e (map numbered ?recs) rs = (Inr (messages s), rs')"
    using parse by simp_all
  from build_messages_nth [OF b] have lm: "length (messages s) = length ?recs"
    and nth: "\<forall>i < length ?recs. \<exists>st. build_message e (numbered (?recs ! i)) = Inr (messages s ! i, st)"
    by simp_all
  have fields: "map_of (raw_data (doc_message (message_docs s ! i))) k = map_of (numbered (?recs ! i)) k"
    if "i < length ?recs" "k \<noteq> ''message''" for i k
  proof -
    from nth that(1) obtain st where "build_message e (numbered (?recs ! i)) = Inr (messages s ! i, st)"
      by blast
    from build_message_other_fields [OF this that(2)] that(1) lm show ?thesis
      by (simp add: nth_message_docs)
  qed
  from message_docs_ids [of s] sid lm len
  have "map doc_id (message_docs s) = map (message_id (stem f)) [0..<?n]"
    and "map message_index (message_docs s) = [0..<?n]"
    by simp_all
  with parse len fields show ?thesis
    by blast
qed

lemma str_nat_digits: "str_nat 0 = ''0''" "str_nat (Suc 0) = ''1''"
  by (simp_all add: str_nat.simps char_of_def bit_Suc_0_iff)

lemma scan_three_lines:
  "scan_session False ''p'' ''/x''
     \<lparr>stem = ''s1'',
      lines = [Some (JObj [(''type'', JStr ''user'')]), None, Some (JObj [(''type'', JStr ''assistant'')])],
      todo = JNull\<rparr> [] =
   (Inr \<lparr>s_id = ''s1'', s_project_id = ''p'', s_project_path = ''/x'',
         messages = [\<lparr>m_type = Some ''user'', m_role = None, m_content = None, m_timestamp = None,
                      raw_data = [(''type'', JStr ''user''), (''_line_number'', JNum 1)]\<rparr>,
                     \<lparr>m_type = Some ''assistant'', m_role = None, m_content = None, m_timestamp = None,
                      raw_data = [(''type'', JStr ''assistant''), (''_line_number'', JNum 3)]\<rparr>],
         first_message = None, message_timestamp = None, todo_data = JNull\<rparr>, [])"
  by (simp add: eval_session)

theorem message_keys_stable_witness:
  "scan_session False ''p'' ''/x''
     \<lparr>stem = ''s1'',
      lines = [Some (JObj [(''type'', JStr ''user'')]), None, Some (JObj [(''type'', JStr ''assistant'')])],
      todo = JNull\<rparr> [] =
   (Inr \<lparr>s_id = ''s1'', s_project_id = ''p'', s_project_path = ''/x'',
         messages = [\<lparr>m_type = Some ''user'', m_role = None, m_content = None, m_timestamp = None,
                      raw_data = [(''type'', JStr ''user''), (''_line_number'', JNum 1)]\<rparr>,
                     \<lparr>m_type = Some ''assistant'', m_role = None, m_content = None, m_timestamp = None,
                      raw_data = [(''type'', JStr ''assistant''), (''_line_number'', JNum 3)]\<rparr>],
         first_message = None, message_timestamp = None, todo_data = JNull\<rparr>, []) \<and>
   parse_jsonl_messages [Some (JObj [(''type'', JStr ''user'')]), None, Some (JObj [(''type'', JStr ''assistant'')])] =
     [[(''type'', JStr ''user''), (''_line_number'', JNum 1)],
      [(''type'', JStr ''assistant''), (''_line_number'', JNum 3)]] \<and>
   map doc_id (message_docs
      \<lparr>s_id = ''s1'', s_project_id = ''p'', s_project_path = ''/x'',
         messages = [\<lparr>m_type = Some ''user'', m_role = None, m_content = None, m_timestamp = None,
                      raw_data = [(''type'', JStr ''user''), (''_line_number'', JNum 1)]\<rparr>,
                     \<lparr>m_type = Some ''assistant'', m_role = None, m_content = None, m_timestamp = None,
                      raw_data = [(''type'', JStr ''assistant''), (''_line_number'', JNum 3)]\<rparr>],
         first_message = None, message_timestamp = None, todo_data = JNull\<rparr>) = [''s1_0'', ''s1_1'']"
proof -
  let ?f = "\<lparr>stem = ''s1'',
      lines = [Some (JObj [(''type'', JStr ''user'')]), None, Some (JObj [(''type'', JStr ''assistant'')])],
      todo = JNull\<rparr>"
  let ?s = "\<lparr>s_id = ''s1'', s_project_id = ''p'', s_project_path = ''/x'',
         messages = [\<lparr>m_type = Some ''user'', m_role = None, m_content = None, m_timestamp = None,
                      raw_data = [(''type'', JStr ''user''), (''_line_number'', JNum 1)]\<rparr>,
                     \<lparr>m_type = Some ''assistant'', m_role = None, m_content = None, m_timestamp = None,
                      raw_data = [(''type'', JStr ''assistant''), (''_line_number'', JNum 3)]\<rparr>],
         first_message = None, message_timestamp = None, todo_data = JNull\<rparr>"
  have wf: "\<forall>l \<in> set (lines ?f). l = None \<or> (\<exists>d. l = Some (JObj d))"
    by simp
  from message_keys_stable [OF wf scan_three_lines]
  have parse: "parse_jsonl_messages (lines ?f) = map numbered (records_from 1 (lines ?f))"
    and ids: "map doc_id (message_docs ?s) =
      map (message_id (stem ?f)) [0..<length (lines ?f) - length (filter (\<lambda>l. l = None) (lines ?f))]"
    by blast+
  have "[0..<length (lines ?f) - length (filter (\<lambda>l. l = None) (lines ?f))] = [0, Suc 0]"
    by (simp add: upt_rec)
  with ids have "map doc_id (message_docs ?s) = [message_id ''s1'' 0, message_id ''s1'' (Suc 0)]"
    by simp
  then have ids': "map doc_id (message_docs ?s) = [''s1_0'', ''s1_1'']"
    by (simp add: message_id_def str_nat_digits)
  have "map numbered (records_from 1 (lines ?f)) =
     [[(''type'', JStr ''user''), (''_line_number'', JNum 1)],
      [(''type'', JStr ''assistant''), (''_line_number'', JNum 3)]]"
    by (simp add: records_from_def List.map_filter_simps numbered_def)
  with parse have "parse_jsonl_messages [Some (JObj [(''type'', JStr ''user'')]), None,
      Some (JObj [(''type'', JStr ''assistant'')])] =
     [[(''type'', JStr ''user''), (''_line_number'', JNum 1)],
      [(''type'', JStr ''assistant''), (''_line_number'', JNum 3)]]"
    by simp
  with ids' scan_three_lines show ?thesis
    by (intro conjI)
qed

end
